theory Spec2Isabelle
  imports Complex_Main "HOL-Library.Sublist" "HOL-Library.Multiset"
begin

section \<open>The multi-task training module \<open>PhantasmLight\<close> (\<open>pl_training.py\<close>)\<close>

text \<open>
  The module trains one shared text encoder against several tasks. The theory embeds
  its pure control logic: parameter grouping for the optimizer, the selection of the
  encoding position, the dispatch on the task type, the aggregation of the losses, the
  extension of the vocabulary by control tokens and the export paths of a checkpoint.
  Floating-point numbers are read as exact reals; rounding is outside the model.
\<close>

subsection \<open>Python strings\<close>

text \<open>\<^verbatim>\<open>nd in n\<close> on two Python strings: \<open>nd\<close> occurs in \<open>n\<close> as a contiguous substring.\<close>

fun str_in :: "string \<Rightarrow> string \<Rightarrow> bool" where
  "str_in nd [] = (nd = [])"
| "str_in nd (c # cs) = (prefix nd (c # cs) \<or> str_in nd cs)"

subsection \<open>Python errors\<close>

text \<open>
  Every exception the modelled code can raise is a value. \<open>PayloadError\<close> stands for
  the exception raised when a batch payload does not have the structure that the taken
  path indexes (a pair where a triple of sequences is read, or the reverse).
\<close>

datatype error =
  KeyError | IndexError | TypeError | RuntimeError | AttributeError | PayloadError

text \<open>Running a list of fallible computations: the first error wins.\<close>

fun collect :: "(error + 'a) list \<Rightarrow> error + 'a list" where
  "collect [] = Inr []"
| "collect (Inl e # rs) = Inl e"
| "collect (Inr a # rs) = (case collect rs of Inl e \<Rightarrow> Inl e | Inr as \<Rightarrow> Inr (a # as))"

text \<open>
  Reading position \<open>i\<close> of a sequence as Python and torch do: \<open>-1\<close> is the last position,
  and a position outside the sequence raises.
\<close>

definition py_index :: "'a list \<Rightarrow> int \<Rightarrow> error + 'a" where
  "py_index xs i =
     (if 0 \<le> i \<and> i < int (length xs) then Inr (xs ! nat i)
      else if i < 0 \<and> - int (length xs) \<le> i then Inr (xs ! nat (int (length xs) + i))
      else Inl IndexError)"

subsection \<open>Loss tensors\<close>

text \<open>
  A loss value is an exact real or not-a-number; \<open>torch.mean\<close> of a tensor without
  elements is not-a-number, and not-a-number propagates through sums. Loss tensors have
  zero, one or two dimensions; \<open>T2 k rows\<close> has shape \<open>[length rows, k]\<close>.
\<close>

datatype scalar = Num real | NaN

fun the_num :: "scalar \<Rightarrow> real" where
  "the_num (Num r) = r"
| "the_num NaN = 0"

definition mean_s :: "scalar list \<Rightarrow> scalar" where
  "mean_s vs = (if vs = [] \<or> NaN \<in> set vs then NaN
                else Num (sum_list (map the_num vs) / real (length vs)))"

datatype tensor = T0 scalar | T1 "scalar list" | T2 nat "scalar list list"

fun elements :: "tensor \<Rightarrow> scalar list" where
  "elements (T0 v) = [v]"
| "elements (T1 vs) = vs"
| "elements (T2 k rows) = concat rows"

text \<open>\<^verbatim>\<open>torch.mean(t)\<close>: the mean of all elements, a scalar.\<close>

definition torch_mean :: "tensor \<Rightarrow> scalar" where
  "torch_mean t = mean_s (elements t)"

text \<open>\<^verbatim>\<open>torch.mean(t, dim=1)\<close>: the mean of each row; dimension 1 must exist.\<close>

fun torch_mean_dim1 :: "tensor \<Rightarrow> error + tensor" where
  "torch_mean_dim1 (T2 k rows) = Inr (T1 (map mean_s rows))"
| "torch_mean_dim1 (T1 vs) = Inl IndexError"
| "torch_mean_dim1 (T0 v) = Inl IndexError"

text \<open>
  \<^verbatim>\<open>torch.cat(ts)\<close> along dimension 0: the list must not be empty; one-dimensional
  tensors without elements are skipped; the others must all have one dimension, or all
  two dimensions and the same number of columns; a tensor without dimensions cannot be
  concatenated.
\<close>

fun is_empty_T1 :: "tensor \<Rightarrow> bool" where
  "is_empty_T1 (T1 []) = True"
| "is_empty_T1 _ = False"

fun is_T1 :: "tensor \<Rightarrow> bool" where
  "is_T1 (T1 vs) = True"
| "is_T1 _ = False"

fun is_T2 :: "nat \<Rightarrow> tensor \<Rightarrow> bool" where
  "is_T2 k (T2 k' rows) = (k = k')"
| "is_T2 k _ = False"

fun rows_of :: "tensor \<Rightarrow> scalar list list" where
  "rows_of (T2 k rows) = rows"
| "rows_of _ = []"

definition torch_cat :: "tensor list \<Rightarrow> error + tensor" where
  "torch_cat ts =
     (if ts = [] then Inl RuntimeError
      else (case filter (\<lambda>t. \<not> is_empty_T1 t) ts of
              [] \<Rightarrow> Inr (T1 [])
            | T0 v # us \<Rightarrow> Inl RuntimeError
            | T1 vs # us \<Rightarrow>
                if list_all is_T1 us then Inr (T1 (concat (map elements (T1 vs # us))))
                else Inl RuntimeError
            | T2 k rows # us \<Rightarrow>
                if list_all (is_T2 k) us then Inr (T2 k (concat (map rows_of (T2 k rows # us))))
                else Inl RuntimeError))"

subsection \<open>Tasks, encoder, tokenizer and the module\<close>

type_synonym vec = "real list"
type_synonym tokens = "nat list list"
type_synonym emb = "vec list"
type_synonym labels = "nat list list"

text \<open>
  \<open>tokens\<close> is a batch of token-id sequences and \<open>emb\<close> holds one vector per example.
  The last hidden state is a tensor of shape \<open>[batch, positions, hidden]\<close>: \<open>states\<close>
  holds, for every example, the vector at each position, and \<open>positions\<close> is the size of
  the second dimension, which the tensor has also when the batch is empty.
\<close>

record hidden =
  positions :: nat
  states :: "vec list list"

text \<open>
  The loss of a task is a Python callable: it is called with three embeddings on one
  path and with logits and labels on the other, and a call with the wrong number of
  arguments raises.
\<close>

datatype loss_fn = Loss3 "emb \<Rightarrow> emb \<Rightarrow> emb \<Rightarrow> tensor" | Loss2 "emb \<Rightarrow> labels \<Rightarrow> tensor"

fun call_loss3 :: "loss_fn \<Rightarrow> emb \<Rightarrow> emb \<Rightarrow> emb \<Rightarrow> error + tensor" where
  "call_loss3 (Loss3 f) q p n = Inr (f q p n)"
| "call_loss3 (Loss2 f) q p n = Inl TypeError"

fun call_loss2 :: "loss_fn \<Rightarrow> emb \<Rightarrow> labels \<Rightarrow> error + tensor" where
  "call_loss2 (Loss2 f) logits y = Inr (f logits y)"
| "call_loss2 (Loss3 f) logits y = Inl TypeError"

text \<open>The logger of the run, of which the checkpoint hook reads three attributes.\<close>

record logger_model =
  save_dir :: string
  name :: string
  version :: string

text \<open>
  A head is a module with parameters. \<open>linear\<close> is its attribute of that name (\<open>None\<close>
  when the module has none), a layer with a weight matrix and an optional bias; \<open>run\<close>
  is the module's forward function, which reads the layer.
\<close>

record linear_layer =
  weight :: "vec list"
  bias :: "vec option"

record head_module =
  linear :: "linear_layer option"
  run :: "linear_layer option \<Rightarrow> emb \<Rightarrow> emb"

definition head_call :: "head_module \<Rightarrow> emb \<Rightarrow> emb" where
  "head_call h encoding = run h (linear h) encoding"

record TaskFamily =
  name :: string
  type :: string
  head :: "head_module option"
  ctrl_token :: "string option"
  loss :: loss_fn
  multi_label :: bool

text \<open>Truth value of an optional string: \<open>None\<close> and the empty string are false.\<close>

fun truthy :: "string option \<Rightarrow> bool" where
  "truthy None = False"
| "truthy (Some s) = (s \<noteq> [])"

text \<open>
  The encoder is opaque but for its token-embedding matrix: \<open>transformer\<close> maps that
  matrix and a batch of token ids to the last hidden state.
\<close>

record encoder_model =
  word_embeddings :: "vec list"
  transformer :: "vec list \<Rightarrow> tokens \<Rightarrow> hidden"

definition encoder_call :: "encoder_model \<Rightarrow> tokens \<Rightarrow> hidden" where
  "encoder_call e x = transformer e (word_embeddings e) x"

record tokenizer_model =
  vocab :: "string list"
  cls_token_id :: nat
  additional_special_tokens :: "string list"

record PhantasmLight =
  task_dict :: "(string \<times> TaskFamily) list"
  heads :: "string \<rightharpoonup> head_module"
  encoder :: encoder_model
  tokenizer :: tokenizer_model
  use_ctrl_tokens :: bool
  batch_size :: nat
  lr :: real

subsection \<open>\<open>forward\<close>\<close>

text \<open>
  \<^verbatim>\<open>
  def forward(self, x, token_idx=0):
      embedding = self.encoder(x)
      return embedding.last_hidden_state[:, token_idx, :]
  \<close>
  The result comes with the log of the encoder runs made: one entry per run, holding the
  input of the run and the position read from its output. The index is checked against
  the size of the second dimension, whatever the size of the batch.
\<close>

type_synonym encoder_run = "tokens \<times> int"

definition select_position :: "hidden \<Rightarrow> int \<Rightarrow> error + emb" where
  "select_position last_hidden_state token_idx =
     (if - int (positions last_hidden_state) \<le> token_idx
         \<and> token_idx < int (positions last_hidden_state)
      then collect (map (\<lambda>row. py_index row token_idx) (states last_hidden_state))
      else Inl IndexError)"

definition forward :: "PhantasmLight \<Rightarrow> tokens \<Rightarrow> int \<Rightarrow> error + (emb \<times> encoder_run list)" where
  "forward self x token_idx =
     (let embedding = encoder_call (encoder self) x
      in case select_position embedding token_idx of
           Inl e \<Rightarrow> Inl e
         | Inr v \<Rightarrow> Inr (v, [(x, token_idx)]))"

subsection \<open>\<open>calc_loss\<close>\<close>

text \<open>
  The payload of one task in a multi-task batch: \<open>Triple query pos neg\<close> is read by
  \<^verbatim>\<open>batch[0][0], batch[0][1], batch[0][2]\<close> and \<open>Pair x y\<close> by \<^verbatim>\<open>batch[0], batch[1]\<close>.
  A multi-task batch is a Python dict, here the list of its items in iteration order.

  \<^verbatim>\<open>
  task = self.task_dict[name]
  idx = 0 if not task.ctrl_token else 1
  if task.type != "classification":
      query, pos, neg = batch[0][0], batch[0][1], batch[0][2]
      query_emb, pos_emb, neg_emb = self(query, idx), self(pos, idx), self(neg, idx)
      curr_loss = task.loss(query_emb, pos_emb, neg_emb)
  else:
      x, y = batch[0], batch[1]
      encoding = self(x, idx)
      logits = self.heads[name](encoding)
      curr_loss = task.loss(logits, y)
      if task.multi_label:
          curr_loss = torch.mean(curr_loss, dim=1)
  \<close>
  \<open>calc_loss_task\<close> is this body of the loop for one item: it yields \<open>curr_loss\<close> and the
  encoder runs it made.
\<close>

datatype payload = Triple tokens tokens tokens | Pair tokens labels

definition calc_loss_task ::
  "PhantasmLight \<Rightarrow> string \<Rightarrow> payload \<Rightarrow> error + (tensor \<times> encoder_run list)" where
  "calc_loss_task self name' batch =
     (case map_of (task_dict self) name' of
        None \<Rightarrow> Inl KeyError
      | Some task \<Rightarrow>
          (let idx = (if \<not> truthy (ctrl_token task) then 0 else 1)
           in if type task \<noteq> ''classification'' then
                (case batch of
                   Pair x y \<Rightarrow> Inl PayloadError
                 | Triple query pos neg \<Rightarrow>
                     (case forward self query idx of Inl e \<Rightarrow> Inl e | Inr (query_emb, r1) \<Rightarrow>
                     (case forward self pos idx of Inl e \<Rightarrow> Inl e | Inr (pos_emb, r2) \<Rightarrow>
                     (case forward self neg idx of Inl e \<Rightarrow> Inl e | Inr (neg_emb, r3) \<Rightarrow>
                     (case call_loss3 (loss task) query_emb pos_emb neg_emb of
                        Inl e \<Rightarrow> Inl e
                      | Inr curr_loss \<Rightarrow> Inr (curr_loss, r1 @ r2 @ r3))))))
              else
                (case batch of
                   Triple query pos neg \<Rightarrow> Inl PayloadError
                 | Pair x y \<Rightarrow>
                     (case forward self x idx of Inl e \<Rightarrow> Inl e | Inr (encoding, r) \<Rightarrow>
                     (case heads self name' of None \<Rightarrow> Inl KeyError | Some h \<Rightarrow>
                     (case call_loss2 (loss task) (head_call h encoding) y of
                        Inl e \<Rightarrow> Inl e
                      | Inr curr_loss \<Rightarrow>
                          if multi_label task then
                            (case torch_mean_dim1 curr_loss of
                               Inl e \<Rightarrow> Inl e
                             | Inr reduced \<Rightarrow> Inr (reduced, r))
                          else Inr (curr_loss, r)))))))"

text \<open>
  \<^verbatim>\<open>
  losses, loss_per_task = [], dict()
  for name, batch in train_batch.items():
      ...
      loss_per_task[name] = torch.mean(curr_loss)
      losses.append(curr_loss)
  loss = torch.mean(torch.cat(losses))
  return loss, loss_per_task
  \<close>
\<close>

fun calc_loss_loop ::
  "PhantasmLight \<Rightarrow> (string \<times> payload) list \<Rightarrow> tensor list \<Rightarrow> (string \<rightharpoonup> scalar) \<Rightarrow>
     encoder_run list \<Rightarrow> error + (tensor list \<times> (string \<rightharpoonup> scalar) \<times> encoder_run list)" where
  "calc_loss_loop self [] losses loss_per_task runs = Inr (losses, loss_per_task, runs)"
| "calc_loss_loop self ((name', batch) # rest) losses loss_per_task runs =
     (case calc_loss_task self name' batch of
        Inl e \<Rightarrow> Inl e
      | Inr (curr_loss, r) \<Rightarrow>
          calc_loss_loop self rest (losses @ [curr_loss])
            (loss_per_task(name' \<mapsto> torch_mean curr_loss)) (runs @ r))"

definition calc_loss ::
  "PhantasmLight \<Rightarrow> (string \<times> payload) list \<Rightarrow> nat \<Rightarrow>
     error + (scalar \<times> (string \<rightharpoonup> scalar) \<times> encoder_run list)" where
  "calc_loss self train_batch batch_idx =
     (case calc_loss_loop self train_batch [] Map.empty [] of
        Inl e \<Rightarrow> Inl e
      | Inr (losses, loss_per_task, runs) \<Rightarrow>
          (case torch_cat losses of
             Inl e \<Rightarrow> Inl e
           | Inr t \<Rightarrow> Inr (torch_mean t, loss_per_task, runs)))"

subsection \<open>\<open>__init__\<close>: heads and control tokens\<close>

text \<open>
  The tokenizer and the encoder come from the \<open>transformers\<close> library. Of the tokenizer
  the model keeps the vocabulary (the id of a token is its index), the id of the cls
  token and the list of additional special tokens. \<^verbatim>\<open>add_special_tokens\<close> appends
  the tokens that the vocabulary does not hold yet and returns how many it added;
  \<^verbatim>\<open>len(tokenizer)\<close> is the size of the vocabulary. \<^verbatim>\<open>resize_token_embeddings(n)\<close>
  keeps the first rows of the matrix and creates the missing ones; the initial value of
  a created row is chosen by the library (\<open>new_row\<close>).
\<close>

fun add_tokens :: "string list \<Rightarrow> string list \<Rightarrow> string list" where
  "add_tokens v [] = v"
| "add_tokens v (t # ts) = add_tokens (if t \<in> set v then v else v @ [t]) ts"

definition add_special_tokens :: "tokenizer_model \<Rightarrow> string list \<Rightarrow> nat \<times> tokenizer_model" where
  "add_special_tokens tok toks =
     (let v = add_tokens (vocab tok) toks
      in (length v - length (vocab tok), tok\<lparr>vocab := v, additional_special_tokens := toks\<rparr>))"

definition tokenizer_len :: "tokenizer_model \<Rightarrow> nat" where
  "tokenizer_len tok = length (vocab tok)"

definition resize_token_embeddings :: "(nat \<Rightarrow> vec) \<Rightarrow> encoder_model \<Rightarrow> nat \<Rightarrow> encoder_model" where
  "resize_token_embeddings new_row e n =
     e\<lparr>word_embeddings :=
          take n (word_embeddings e) @ map new_row [length (word_embeddings e)..<n]\<rparr>"

text \<open>\<^verbatim>\<open>weight[-k:, :] = weight[i, :]\<close> for a positive \<open>k\<close>.\<close>

definition assign_last_rows :: "vec list \<Rightarrow> nat \<Rightarrow> nat \<Rightarrow> error + vec list" where
  "assign_last_rows w k i =
     (if i < length w
      then Inr (take (length w - k) w @ replicate (min k (length w)) (w ! i))
      else Inl IndexError)"

text \<open>
  \<^verbatim>\<open>
  def init_weights(modules):
      for module in modules:
          module.linear.weight.data.normal_(mean=0.0, std=0.02)
          if module.linear.bias is not None:
              module.linear.bias.data.zero_()
  \<close>
  \<open>normal k w\<close> stands for the values that the random generator draws for the weight
  \<open>w\<close> of the \<open>k\<close>-th module; a module without an attribute \<open>linear\<close> raises.
\<close>

fun init_weights ::
  "(nat \<Rightarrow> vec list \<Rightarrow> vec list) \<Rightarrow> nat \<Rightarrow> head_module list \<Rightarrow> error + head_module list" where
  "init_weights normal k [] = Inr []"
| "init_weights normal k (m # modules) =
     (case linear m of
        None \<Rightarrow> Inl AttributeError
      | Some l \<Rightarrow>
          (case init_weights normal (Suc k) modules of
             Inl e \<Rightarrow> Inl e
           | Inr ms \<Rightarrow>
               Inr (m\<lparr>linear :=
                        Some (l\<lparr>weight := normal k (weight l),
                                bias := map_option (map (\<lambda>b. 0)) (bias l)\<rparr>)\<rparr> # ms)))"

text \<open>
  \<^verbatim>\<open>torch.nn.ModuleDict({t.name: t.head for t in self.task_dict.values() if t.head})\<close>.
  The dict comprehension keeps, for a name that occurs again, the place of its first
  entry and the head of its last (\<open>dict_set\<close>). \<open>ModuleDict\<close> then refuses a key that
  is empty, contains a dot, or is the name of an attribute the container has already;
  the names of these attributes are a table of the library (\<open>attrs\<close>).
\<close>

fun dict_set :: "('k \<times> 'v) list \<Rightarrow> 'k \<Rightarrow> 'v \<Rightarrow> ('k \<times> 'v) list" where
  "dict_set [] k v = [(k, v)]"
| "dict_set ((k', v') # kvs) k v =
     (if k' = k then (k, v) # kvs else (k', v') # dict_set kvs k v)"

definition head_items :: "(string \<times> TaskFamily) list \<Rightarrow> (string \<times> head_module) list" where
  "head_items td =
     foldl (\<lambda>items t. case head t of None \<Rightarrow> items
                                    | Some h \<Rightarrow> dict_set items (TaskFamily.name t) h)
       [] (map snd td)"

definition valid_module_name :: "string list \<Rightarrow> string \<Rightarrow> bool" where
  "valid_module_name attrs key \<longleftrightarrow> key \<notin> set attrs \<and> CHR ''.'' \<notin> set key \<and> key \<noteq> []"

definition make_heads ::
  "string list \<Rightarrow> (string \<times> TaskFamily) list \<Rightarrow> error + (string \<times> head_module) list" where
  "make_heads attrs td =
     (if list_all (\<lambda>key. valid_module_name attrs key) (map fst (head_items td))
      then Inr (head_items td)
      else Inl KeyError)"

text \<open>
  \<^verbatim>\<open>set([t.ctrl_token for t in self.task_dict.values() if t.ctrl_token])\<close>. The order
  in which \<^verbatim>\<open>list(spl_ctrl_tokens)\<close> lists the set is the runtime's choice
  (\<open>py_list\<close>): some list without repetition of the elements of the set.
\<close>

definition spl_ctrl_tokens :: "(string \<times> TaskFamily) list \<Rightarrow> string set" where
  "spl_ctrl_tokens td =
     set (concat (map (\<lambda>t. case ctrl_token t of
                              None \<Rightarrow> []
                            | Some c \<Rightarrow> if truthy (Some c) then [c] else [])
                      (map snd td)))"

record environment =
  load_tasks :: "(string \<times> TaskFamily) list"
  pretrained_encoder :: encoder_model
  pretrained_tokenizer :: tokenizer_model
  new_row :: "nat \<Rightarrow> vec"
  module_attrs :: "string list"
  normal_draw :: "nat \<Rightarrow> vec list \<Rightarrow> vec list"
  py_list :: "string set \<Rightarrow> string list"

text \<open>
  \<^verbatim>\<open>
  def __init__(self, batch_size, use_ctrl_tokens=False, task_dict=None):
      self.task_dict = load_tasks() if not task_dict else task_dict
      self.heads = torch.nn.ModuleDict(
          {t.name: t.head for t in self.task_dict.values() if t.head}
      )
      init_weights(self.heads.values())
      self.encoder = AutoModel.from_pretrained("allenai/specter")
      self.tokenizer = AutoTokenizer.from_pretrained("allenai/specter")
      self.use_ctrl_tokens = use_ctrl_tokens
      if self.use_ctrl_tokens:
          spl_ctrl_tokens = set([t.ctrl_token for t in self.task_dict.values() if t.ctrl_token])
          if spl_ctrl_tokens:
              special_tokens_dict = {'additional_special_tokens': list(spl_ctrl_tokens)}
              num_added_toks = self.tokenizer.add_special_tokens(special_tokens_dict)
              if num_added_toks:
                  with torch.no_grad():
                      self.encoder.resize_token_embeddings(len(self.tokenizer))
                      self.encoder.embeddings.word_embeddings.weight[-num_added_toks:, :] = \
                          self.encoder.embeddings.word_embeddings.weight[self.tokenizer.cls_token_id, :]
      self.batch_size = batch_size
      self.lr = 1e-6
  \<close>
  The registry keeps the heads as it was given them; nothing reads their weights there.
\<close>

text \<open>\<^verbatim>\<open>load_tasks() if not task_dict else task_dict\<close>: \<open>None\<close> and the empty dict are false.\<close>

definition resolve_task_dict ::
  "environment \<Rightarrow> (string \<times> TaskFamily) list option \<Rightarrow> (string \<times> TaskFamily) list" where
  "resolve_task_dict env task_dict' =
     (case task_dict' of
        None \<Rightarrow> load_tasks env
      | Some [] \<Rightarrow> load_tasks env
      | Some (d # ds) \<Rightarrow> d # ds)"

text \<open>The two lines that build \<open>self.heads\<close>: the container, then the weights.\<close>

definition build_heads ::
  "environment \<Rightarrow> (string \<times> TaskFamily) list \<Rightarrow> error + (string \<times> head_module) list" where
  "build_heads env td =
     (case make_heads (module_attrs env) td of
        Inl e \<Rightarrow> Inl e
      | Inr items \<Rightarrow>
          (case init_weights (normal_draw env) 0 (map snd items) of
             Inl e \<Rightarrow> Inl e
           | Inr modules \<Rightarrow> Inr (zip (map fst items) modules)))"

definition init ::
  "environment \<Rightarrow> nat \<Rightarrow> bool \<Rightarrow> (string \<times> TaskFamily) list option \<Rightarrow> error + PhantasmLight" where
  "init env batch_size' use_ctrl_tokens' task_dict' =
     (let td = resolve_task_dict env task_dict'
      in case build_heads env td of
           Inl err \<Rightarrow> Inl err
         | Inr items \<Rightarrow>
      (let self = \<lparr>task_dict = td, heads = map_of items,
                  encoder = pretrained_encoder env, tokenizer = pretrained_tokenizer env,
                  use_ctrl_tokens = use_ctrl_tokens', batch_size = batch_size', lr = 1 / 10 ^ 6\<rparr>
      in if use_ctrl_tokens' then
           (if spl_ctrl_tokens td \<noteq> {} then
              (case add_special_tokens (tokenizer self) (py_list env (spl_ctrl_tokens td)) of
                 (num_added_toks, tok) \<Rightarrow>
                   if num_added_toks \<noteq> 0 then
                     (let e = resize_token_embeddings (new_row env) (encoder self) (tokenizer_len tok)
                      in case assign_last_rows (word_embeddings e) num_added_toks (cls_token_id tok) of
                           Inl err \<Rightarrow> Inl err
                         | Inr w \<Rightarrow>
                             Inr (self\<lparr>encoder := e\<lparr>word_embeddings := w\<rparr>, tokenizer := tok\<rparr>))
                   else Inr (self\<lparr>tokenizer := tok\<rparr>))
            else Inr self)
         else Inr self))"

subsection \<open>\<open>load_data\<close>\<close>

text \<open>
  \<open>load_data\<close> builds one dataset per registered task. Of the arguments of a dataset the
  model keeps its class, the task name, the control token handed to it
  (\<^verbatim>\<open>op_token = task.ctrl_token if self.use_ctrl_tokens else None\<close>) and the sample
  size; the data files, fields and labels are not modelled.
\<close>

datatype dataset_class =
  MultiLabelClassificationDataset | ClassificationDataset | IRDataset | TripletDataset

record dataset_args =
  dataset :: dataset_class
  task_name :: string
  ds_ctrl_token :: "string option"
  sample_size :: nat

definition load_data :: "PhantasmLight \<Rightarrow> string \<Rightarrow> dataset_args list" where
  "load_data self split =
     map (\<lambda>(t_name, task).
            (let op_token = (if use_ctrl_tokens self then ctrl_token task else None);
                 size' = (if split = ''train'' then 400000 else 80000)
             in \<lparr>dataset =
                    (if type task = ''classification'' then
                       (if multi_label task then MultiLabelClassificationDataset
                        else ClassificationDataset)
                     else if type task = ''ir'' then IRDataset
                     else TripletDataset),
                  task_name = t_name, ds_ctrl_token = op_token, sample_size = size'\<rparr>))
         (task_dict self)"

subsection \<open>\<open>on_save_checkpoint\<close>\<close>

text \<open>
  \<^verbatim>\<open>
  logger = self.logger
  self.encoder.save_pretrained(f'{logger.save_dir}/{logger.name}/{logger.version}/checkpoints/model/')
  self.tokenizer.save_pretrained(f'{logger.save_dir}/{logger.name}/{logger.version}/checkpoints/tokenizer/')
  self.tokenizer.save_vocabulary(f'{logger.save_dir}/{logger.name}/{logger.version}/checkpoints/tokenizer/')
  \<close>
  The hook returns nothing; its effect is the list of the exports it makes, in order.
  The version of the logger is taken as the string the format inserts.
\<close>

datatype export =
  Encoder_save_pretrained encoder_model string
| Tokenizer_save_pretrained tokenizer_model string
| Tokenizer_save_vocabulary tokenizer_model string

definition on_save_checkpoint :: "PhantasmLight \<Rightarrow> logger_model \<Rightarrow> export list" where
  "on_save_checkpoint self logger =
     [Encoder_save_pretrained (encoder self)
        (save_dir logger @ ''/'' @ logger_model.name logger @ ''/'' @ version logger
           @ ''/checkpoints/model/''),
      Tokenizer_save_pretrained (tokenizer self)
        (save_dir logger @ ''/'' @ logger_model.name logger @ ''/'' @ version logger
           @ ''/checkpoints/tokenizer/''),
      Tokenizer_save_vocabulary (tokenizer self)
        (save_dir logger @ ''/'' @ logger_model.name logger @ ''/'' @ version logger
           @ ''/checkpoints/tokenizer/'')]"

subsection \<open>\<open>configure_optimizers\<close>\<close>

text \<open>
  \<^verbatim>\<open>
  no_decay = ["bias", "LayerNorm.weight"]
  optimizer_grouped_parameters = [
      {"params": [p for n, p in self.named_parameters() if not any(nd in n for nd in no_decay)],
       "weight_decay": 0.0},
      {"params": [p for n, p in self.named_parameters() if any(nd in n for nd in no_decay)],
       "weight_decay": 0.0}]
  optimizer = AdamW(optimizer_grouped_parameters, lr=self.lr, eps=1e-8)
  \<close>
  The named parameters of the module are a list of pairs of a name and a parameter;
  the parameters themselves are opaque (\<open>'p\<close>).
\<close>

definition no_decay :: "string list" where
  "no_decay = [''bias'', ''LayerNorm.weight'']"

record 'p param_group =
  params :: "'p list"
  weight_decay :: real

record 'p optimizer =
  param_groups :: "'p param_group list"
  opt_lr :: real
  eps :: real

definition optimizer_grouped_parameters :: "(string \<times> 'p) list \<Rightarrow> 'p param_group list" where
  "optimizer_grouped_parameters named_parameters =
     [\<lparr>params = [p. (n, p) \<leftarrow> named_parameters, \<not> list_ex (\<lambda>nd. str_in nd n) no_decay],
       weight_decay = 0\<rparr>,
      \<lparr>params = [p. (n, p) \<leftarrow> named_parameters, list_ex (\<lambda>nd. str_in nd n) no_decay],
       weight_decay = 0\<rparr>]"

definition configure_optimizers :: "PhantasmLight \<Rightarrow> (string \<times> 'p) list \<Rightarrow> 'p optimizer" where
  "configure_optimizers self named_parameters =
     \<lparr>param_groups = optimizer_grouped_parameters named_parameters,
      opt_lr = lr self, eps = 1 / 10 ^ 8\<rparr>"


text \<open>
  The artifact layout in the words of the specification:
  \<^verbatim>\<open><save_dir>/<run_name>/<run_version>/checkpoints/<kind>/\<close>, every component followed
  by a slash.
\<close>

definition spec_artifact_dir :: "string \<Rightarrow> string \<Rightarrow> string \<Rightarrow> string \<Rightarrow> string" where
  "spec_artifact_dir dir run_name run_version kind =
     concat (map (\<lambda>part. part @ ''/'') [dir, run_name, run_version, ''checkpoints'', kind])"

subsection \<open>A small registry for concrete evaluations\<close>

text \<open>
  A toy encoder whose hidden state at a position is the embedding row of the token
  there, a head that passes its input through, a tokenizer with four tokens, and six
  tasks: a single-label and a multi-label
  classification task with a head, a retrieval task with a control token, two tasks
  whose type string is \<open>multi_label_classification\<close>, and a classification task
  without a head.
\<close>

definition ex_encoder :: encoder_model where
  "ex_encoder =
     \<lparr>word_embeddings = [[0, 0], [1, 0], [0, 1], [1, 1]],
      transformer =
        (\<lambda>w x. \<lparr>positions = (case x of [] \<Rightarrow> 0 | s # ss \<Rightarrow> length s),
                 states = map (map (\<lambda>t. if t < length w then w ! t else [])) x\<rparr>)\<rparr>"

definition ex_head :: head_module where
  "ex_head = \<lparr>linear = Some \<lparr>weight = [[1, 0], [0, 1]], bias = Some [0, 0]\<rparr>,
              run = (\<lambda>l e. e)\<rparr>"

definition ex_tokenizer :: tokenizer_model where
  "ex_tokenizer =
     \<lparr>vocab = [''[PAD]'', ''[CLS]'', ''x'', ''y''], cls_token_id = 1,
      additional_special_tokens = []\<rparr>"

definition row_sums :: "emb \<Rightarrow> tensor" where
  "row_sums e = T1 (map (\<lambda>v. Num (sum_list v)) e)"

definition ex_loss2 :: loss_fn where
  "ex_loss2 = Loss2 (\<lambda>logits y. row_sums logits)"

definition ex_loss2_per_label :: loss_fn where
  "ex_loss2_per_label = Loss2 (\<lambda>logits y. T2 2 (map (map Num) logits))"

definition ex_loss3 :: loss_fn where
  "ex_loss3 = Loss3 (\<lambda>q p n. row_sums (q @ p @ n))"

definition task_a :: TaskFamily where
  "task_a = \<lparr>name = ''task_a'', type = ''classification'', head = Some ex_head,
             ctrl_token = None, loss = ex_loss2, multi_label = False\<rparr>"

definition task_b :: TaskFamily where
  "task_b = \<lparr>name = ''task_b'', type = ''ir'', head = None,
             ctrl_token = Some ''[B]'', loss = ex_loss3, multi_label = False\<rparr>"

definition task_m :: TaskFamily where
  "task_m = \<lparr>name = ''task_m'', type = ''classification'', head = Some ex_head,
             ctrl_token = None, loss = ex_loss2_per_label, multi_label = True\<rparr>"

definition task_mlc :: TaskFamily where
  "task_mlc = \<lparr>name = ''mlc'', type = ''multi_label_classification'', head = Some ex_head,
               ctrl_token = None, loss = ex_loss2_per_label, multi_label = True\<rparr>"

definition task_mlc3 :: TaskFamily where
  "task_mlc3 = \<lparr>name = ''mlc3'', type = ''multi_label_classification'', head = Some ex_head,
                ctrl_token = None, loss = ex_loss3, multi_label = True\<rparr>"

definition task_h :: TaskFamily where
  "task_h = \<lparr>name = ''task_h'', type = ''classification'', head = None,
             ctrl_token = None, loss = ex_loss2, multi_label = False\<rparr>"

definition ex_registry :: "(string \<times> TaskFamily) list" where
  "ex_registry =
     [(''task_a'', task_a), (''task_b'', task_b), (''task_m'', task_m),
      (''mlc'', task_mlc), (''mlc3'', task_mlc3), (''task_h'', task_h)]"

definition ex_env :: environment where
  "ex_env = \<lparr>load_tasks = ex_registry, pretrained_encoder = ex_encoder,
             pretrained_tokenizer = ex_tokenizer, new_row = (\<lambda>i. [7, 7]),
             module_attrs = [''training'', ''forward'', ''keys'', ''values'', ''items''],
             normal_draw = (\<lambda>k w. w),
             py_list = (\<lambda>S. filter (\<lambda>t. t \<in> S) [''[A]'', ''[B]'', ''[C]''])\<rparr>"

definition ex_model :: PhantasmLight where
  "ex_model = \<lparr>task_dict = ex_registry,
               heads = map_of [(''task_a'', ex_head), (''task_m'', ex_head),
                               (''mlc'', ex_head), (''mlc3'', ex_head)],
               encoder = ex_encoder, tokenizer = ex_tokenizer, use_ctrl_tokens = False,
               batch_size = 16, lr = 1 / 10 ^ 6\<rparr>"

definition ex_registry_h :: "(string \<times> TaskFamily) list" where
  "ex_registry_h = [(''task_h'', task_h)]"

definition ex_model_h :: PhantasmLight where
  "ex_model_h = \<lparr>task_dict = ex_registry_h, heads = map_of [],
                 encoder = ex_encoder, tokenizer = ex_tokenizer, use_ctrl_tokens = False,
                 batch_size = 16, lr = 1 / 10 ^ 6\<rparr>"

definition ex_batch :: "(string \<times> payload) list" where
  "ex_batch =
     [(''task_a'', Pair [[3, 2]] [[0]]),
      (''task_b'', Triple [[0, 2]] [[0, 3]] [[0, 2], [0, 3]])]"

definition ex_logger :: logger_model where
  "ex_logger = \<lparr>save_dir = ''./lightning_logs/'', logger_model.name = ''full_run'',
                version = ''all''\<rparr>"

section \<open>Properties\<close>

lemmas ex_defs = ex_model_def ex_registry_def ex_encoder_def ex_tokenizer_def ex_env_def
  task_a_def task_b_def task_m_def task_mlc_def task_mlc3_def task_h_def
  ex_loss2_def ex_loss3_def ex_loss2_per_label_def row_sums_def ex_head_def head_call_def

lemma str_in_iff: "str_in nd n \<longleftrightarrow> (\<exists>ps ss. n = ps @ nd @ ss)"
proof (induction n)
  case Nil
  then show ?case by auto
next
  case (Cons c cs)
  show ?case
  proof
    assume "str_in nd (c # cs)"
    then consider "prefix nd (c # cs)" | "str_in nd cs" by auto
    then show "\<exists>ps ss. c # cs = ps @ nd @ ss"
    proof cases
      case 1
      then obtain ss where "c # cs = nd @ ss" by (auto simp: prefix_def)
      then have "c # cs = [] @ nd @ ss" by simp
      then show ?thesis by blast
    next
      case 2
      with Cons.IH obtain ps ss where "cs = ps @ nd @ ss" by blast
      then have "c # cs = (c # ps) @ nd @ ss" by simp
      then show ?thesis by blast
    qed
  next
    assume "\<exists>ps ss. c # cs = ps @ nd @ ss"
    then obtain ps ss where eq: "c # cs = ps @ nd @ ss" by blast
    show "str_in nd (c # cs)"
    proof (cases ps)
      case Nil
      with eq have "prefix nd (c # cs)" by (simp add: prefix_def)
      then show ?thesis by simp
    next
      case (Cons q qs)
      with eq have "cs = qs @ nd @ ss" by simp
      with Cons.IH have "str_in nd cs" by blast
      then show ?thesis by simp
    qed
  qed
qed

lemma filter_split_mset:
  "mset [p. (n, p) \<leftarrow> nps, \<not> P n] + mset [p. (n, p) \<leftarrow> nps, P n] = mset (map snd nps)"
  by (induction nps) auto

lemma matching_params_set:
  "set [p. (n, p) \<leftarrow> nps, P n] = {p. \<exists>n. (n, p) \<in> set nps \<and> P n}"
  by (induction nps) auto

lemma str_in_sublist: "str_in nd n = sublist nd n"
  by (simp add: str_in_iff sublist_def)

subsection \<open>Errors, indexing and the encoder adapter\<close>

lemma collect_map_Inr: "collect (map Inr as) = Inr as"
  by (induction as) auto

lemma collect_Inr_D: "collect rs = Inr as \<Longrightarrow> rs = map Inr as"
proof (induction rs arbitrary: as)
  case Nil
  then show ?case by simp
next
  case (Cons r rs)
  then show ?case by (cases r) (auto split: sum.splits)
qed

lemma collect_Inr_iff: "collect rs = Inr as \<longleftrightarrow> rs = map Inr as"
  using collect_map_Inr collect_Inr_D by metis

lemma collect_Inl_iff: "(\<exists>e. collect rs = Inl e) \<longleftrightarrow> (\<exists>e. Inl e \<in> set rs)"
proof (induction rs)
  case Nil
  then show ?case by simp
next
  case (Cons r rs)
  then show ?case by (cases r) (auto split: sum.splits)
qed

lemma forward_Inr_iff:
  "forward self x i = Inr (v, runs) \<longleftrightarrow>
     - int (positions (encoder_call (encoder self) x)) \<le> i
     \<and> i < int (positions (encoder_call (encoder self) x))
     \<and> map (\<lambda>row. py_index row i) (states (encoder_call (encoder self) x)) = map Inr v
     \<and> runs = [(x, i)]"
  by (auto simp: forward_def select_position_def Let_def collect_Inr_iff collect_map_Inr
      split: sum.splits)

lemma forward_out_of_range:
  assumes "i < - int (positions (encoder_call (encoder self) x))
             \<or> int (positions (encoder_call (encoder self) x)) \<le> i"
  shows "forward self x i = Inl IndexError"
  using assms by (auto simp: forward_def select_position_def Let_def)

lemma py_index_nonneg:
  "0 \<le> i \<Longrightarrow> nat i < length xs \<Longrightarrow> py_index xs i = Inr (xs ! nat i)"
  by (auto simp: py_index_def)

lemma forward_in_range:
  assumes "0 \<le> i" and "i < int (positions (encoder_call (encoder self) x))"
    and "\<forall>row \<in> set (states (encoder_call (encoder self) x)).
           length row = positions (encoder_call (encoder self) x)"
  shows "forward self x i =
           Inr (map (\<lambda>row. row ! nat i) (states (encoder_call (encoder self) x)), [(x, i)])"
proof -
  have "map (\<lambda>row. py_index row i) (states (encoder_call (encoder self) x)) =
          map Inr (map (\<lambda>row. row ! nat i) (states (encoder_call (encoder self) x)))"
    using assms by (simp add: py_index_nonneg)
  moreover have "- int (positions (encoder_call (encoder self) x)) \<le> i"
    using assms(1) by simp
  ultimately show ?thesis using assms(2) by (simp only: forward_Inr_iff simp_thms)
qed

lemma calc_loss_task_three_way:
  assumes "map_of (task_dict self) n = Some task" and "type task \<noteq> ''classification''"
  shows "calc_loss_task self n (Triple q p ng) = Inr (t, runs) \<longleftrightarrow>
           (\<exists>qe pe ne r1 r2 r3.
              forward self q (if truthy (ctrl_token task) then 1 else 0) = Inr (qe, r1)
            \<and> forward self p (if truthy (ctrl_token task) then 1 else 0) = Inr (pe, r2)
            \<and> forward self ng (if truthy (ctrl_token task) then 1 else 0) = Inr (ne, r3)
            \<and> call_loss3 (loss task) qe pe ne = Inr t
            \<and> runs = r1 @ r2 @ r3)"
  using assms by (auto simp: calc_loss_task_def Let_def split: sum.splits prod.splits)

lemma calc_loss_task_three_way_pair:
  assumes "map_of (task_dict self) n = Some task" and "type task \<noteq> ''classification''"
  shows "calc_loss_task self n (Pair x y) = Inl PayloadError"
  using assms by (simp add: calc_loss_task_def Let_def)

lemma calc_loss_task_classification:
  assumes "map_of (task_dict self) n = Some task" and "type task = ''classification''"
  shows "calc_loss_task self n (Pair x y) = Inr (t, runs) \<longleftrightarrow>
           (\<exists>encoding h c.
              forward self x (if truthy (ctrl_token task) then 1 else 0) = Inr (encoding, runs)
            \<and> heads self n = Some h
            \<and> call_loss2 (loss task) (head_call h encoding) y = Inr c
            \<and> (if multi_label task then torch_mean_dim1 c = Inr t else t = c))"
  using assms by (auto simp: calc_loss_task_def Let_def split: sum.splits prod.splits option.splits)

lemma calc_loss_task_classification_triple:
  assumes "map_of (task_dict self) n = Some task" and "type task = ''classification''"
  shows "calc_loss_task self n (Triple q p ng) = Inl PayloadError"
  using assms by (simp add: calc_loss_task_def Let_def)

lemma calc_loss_task_unknown:
  "map_of (task_dict self) n = None \<Longrightarrow> calc_loss_task self n batch = Inl KeyError"
  by (simp add: calc_loss_task_def)

lemma calc_loss_task_runs_payload:
  assumes "map_of (task_dict self) n = Some task"
    and "calc_loss_task self n batch = Inr (t, runs)"
  shows "(case batch of
            Triple q p ng \<Rightarrow>
              runs = [(q, if truthy (ctrl_token task) then 1 else 0),
                      (p, if truthy (ctrl_token task) then 1 else 0),
                      (ng, if truthy (ctrl_token task) then 1 else 0)]
          | Pair x y \<Rightarrow> runs = [(x, if truthy (ctrl_token task) then 1 else 0)])"
proof (cases "type task = ''classification''")
  case True
  show ?thesis
  proof (cases batch)
    case (Triple q p ng)
    with assms True show ?thesis by (simp add: calc_loss_task_classification_triple)
  next
    case (Pair x y)
    with assms True show ?thesis
      by (auto simp: calc_loss_task_classification forward_Inr_iff)
  qed
next
  case False
  show ?thesis
  proof (cases batch)
    case (Triple q p ng)
    with assms False show ?thesis
      by (auto simp: calc_loss_task_three_way forward_Inr_iff)
  next
    case (Pair x y)
    with assms False show ?thesis by (simp add: calc_loss_task_three_way_pair)
  qed
qed

lemma calc_loss_task_runs:
  assumes "map_of (task_dict self) n = Some task"
    and "calc_loss_task self n batch = Inr (t, runs)"
  shows "runs \<noteq> [] \<and> (\<forall>r \<in> set runs. snd r = (if truthy (ctrl_token task) then 1 else 0))"
  using calc_loss_task_runs_payload [OF assms] by (cases batch) auto

text \<open>
  C8. Whenever \<open>forward\<close> returns, it has run the encoder exactly once, on its input,
  \<open>token_idx\<close> is a position of the hidden state (counted from the end when negative),
  and the result holds for every example the hidden-state vector at that position. It
  does return when \<open>token_idx\<close> is a position from the start, and it raises
  \<open>IndexError\<close> when \<open>token_idx\<close> is no position of the hidden state, also on an empty
  batch. The encoder runs that \<open>calc_loss\<close> makes for a task are exactly the runs on the
  sequences of its payload, in order, and each reads position 1 when the task has a
  control token (a non-empty string) and position 0 otherwise.
\<close>

theorem forward_position_and_requested_index:
  "(\<forall>v runs. forward self x token_idx = Inr (v, runs) \<longrightarrow>
       runs = [(x, token_idx)]
     \<and> - int (positions (encoder_call (encoder self) x)) \<le> token_idx
     \<and> token_idx < int (positions (encoder_call (encoder self) x))
     \<and> map (\<lambda>row. py_index row token_idx) (states (encoder_call (encoder self) x)) = map Inr v)
   \<and> (0 \<le> token_idx \<and> token_idx < int (positions (encoder_call (encoder self) x))
       \<and> (\<forall>row \<in> set (states (encoder_call (encoder self) x)).
             length row = positions (encoder_call (encoder self) x)) \<longrightarrow>
       forward self x token_idx =
         Inr (map (\<lambda>row. row ! nat token_idx) (states (encoder_call (encoder self) x)),
              [(x, token_idx)]))
   \<and> (token_idx < - int (positions (encoder_call (encoder self) x))
        \<or> int (positions (encoder_call (encoder self) x)) \<le> token_idx \<longrightarrow>
       forward self x token_idx = Inl IndexError)
   \<and> (\<forall>task t runs. map_of (task_dict self) n = Some task
         \<and> calc_loss_task self n batch = Inr (t, runs) \<longrightarrow>
       (case batch of
          Triple q p ng \<Rightarrow>
            runs = [(q, if truthy (ctrl_token task) then 1 else 0),
                    (p, if truthy (ctrl_token task) then 1 else 0),
                    (ng, if truthy (ctrl_token task) then 1 else 0)]
        | Pair x' y \<Rightarrow> runs = [(x', if truthy (ctrl_token task) then 1 else 0)]))"
proof (intro conjI allI impI)
  fix v runs
  assume "forward self x token_idx = Inr (v, runs)"
  then have f: "- int (positions (encoder_call (encoder self) x)) \<le> token_idx
     \<and> token_idx < int (positions (encoder_call (encoder self) x))
     \<and> map (\<lambda>row. py_index row token_idx) (states (encoder_call (encoder self) x)) = map Inr v
     \<and> runs = [(x, token_idx)]"
    by (simp only: forward_Inr_iff)
  from f show "runs = [(x, token_idx)]" by blast
  from f show "- int (positions (encoder_call (encoder self) x)) \<le> token_idx" by blast
  from f show "token_idx < int (positions (encoder_call (encoder self) x))" by blast
  from f show "map (\<lambda>row. py_index row token_idx) (states (encoder_call (encoder self) x)) = map Inr v"
    by blast
next
  assume "0 \<le> token_idx \<and> token_idx < int (positions (encoder_call (encoder self) x))
       \<and> (\<forall>row \<in> set (states (encoder_call (encoder self) x)).
             length row = positions (encoder_call (encoder self) x))"
  then show "forward self x token_idx =
         Inr (map (\<lambda>row. row ! nat token_idx) (states (encoder_call (encoder self) x)),
              [(x, token_idx)])"
    using forward_in_range [of token_idx self x] by blast
next
  assume "token_idx < - int (positions (encoder_call (encoder self) x))
        \<or> int (positions (encoder_call (encoder self) x)) \<le> token_idx"
  then show "forward self x token_idx = Inl IndexError"
    by (rule forward_out_of_range)
next
  fix task t runs
  assume "map_of (task_dict self) n = Some task \<and> calc_loss_task self n batch = Inr (t, runs)"
  then show "(case batch of
          Triple q p ng \<Rightarrow>
            runs = [(q, if truthy (ctrl_token task) then 1 else 0),
                    (p, if truthy (ctrl_token task) then 1 else 0),
                    (ng, if truthy (ctrl_token task) then 1 else 0)]
        | Pair x' y \<Rightarrow> runs = [(x', if truthy (ctrl_token task) then 1 else 0)])"
    using calc_loss_task_runs_payload [of self n task batch t runs] by blast
qed

theorem forward_position_and_requested_index_witness:
  "forward ex_model [[0, 2, 3]] 1 = Inr ([[0, 1]], [([[0, 2, 3]], 1)])
   \<and> positions (encoder_call (encoder ex_model) []) = 0
   \<and> forward ex_model [] 0 = Inl IndexError
   \<and> forward ex_model [[0, 2, 3]] 3 = Inl IndexError
   \<and> map_of (task_dict ex_model) ''task_b'' = Some task_b
   \<and> truthy (ctrl_token task_b)
   \<and> calc_loss_task ex_model ''task_b'' (Triple [[0, 2]] [[0, 3]] [[0, 2], [0, 3]]) =
       Inr (T1 [Num 1, Num 2, Num 1, Num 2],
            [([[0, 2]], 1), ([[0, 3]], 1), ([[0, 2], [0, 3]], 1)])
   \<and> map_of (task_dict ex_model) ''task_a'' = Some task_a
   \<and> \<not> truthy (ctrl_token task_a)
   \<and> calc_loss_task ex_model ''task_a'' (Pair [[3, 2]] [[0]]) = Inr (T1 [Num 2], [([[3, 2]], 0)])"
proof -
  have enc: "encoder_call (encoder ex_model) [[0, 2, 3]] =
      \<lparr>positions = 3, states = [[[0, 0], [0, 1], [1, 1]]]\<rparr>"
    by (simp add: encoder_call_def ex_defs)
  have enc0: "encoder_call (encoder ex_model) [] = \<lparr>positions = 0, states = []\<rparr>"
    by (simp add: encoder_call_def ex_defs)
  note th = forward_position_and_requested_index
  have hyp: "(0::int) \<le> 1 \<and> 1 < int (positions (encoder_call (encoder ex_model) [[0, 2, 3]]))
       \<and> (\<forall>row \<in> set (states (encoder_call (encoder ex_model) [[0, 2, 3]])).
             length row = positions (encoder_call (encoder ex_model) [[0, 2, 3]]))"
    by (simp add: enc)
  have "(0::int) \<le> 1 \<and> 1 < int (positions (encoder_call (encoder ex_model) [[0, 2, 3]]))
       \<and> (\<forall>row \<in> set (states (encoder_call (encoder ex_model) [[0, 2, 3]])).
             length row = positions (encoder_call (encoder ex_model) [[0, 2, 3]])) \<longrightarrow>
       forward ex_model [[0, 2, 3]] 1 =
         Inr (map (\<lambda>row. row ! nat 1) (states (encoder_call (encoder ex_model) [[0, 2, 3]])),
              [([[0, 2, 3]], 1)])"
    by (rule conjunct1 [OF conjunct2 [OF th]])
  from this hyp have "forward ex_model [[0, 2, 3]] 1 =
         Inr (map (\<lambda>row. row ! nat 1) (states (encoder_call (encoder ex_model) [[0, 2, 3]])),
              [([[0, 2, 3]], 1)])"
    by (rule mp)
  then have f: "forward ex_model [[0, 2, 3]] 1 = Inr ([[0, 1]], [([[0, 2, 3]], 1)])"
    by (simp add: enc)
  have "(0::int) < - int (positions (encoder_call (encoder ex_model) []))
        \<or> int (positions (encoder_call (encoder ex_model) [])) \<le> 0 \<longrightarrow>
       forward ex_model [] 0 = Inl IndexError"
    by (rule conjunct1 [OF conjunct2 [OF conjunct2 [OF th]]])
  moreover have "(0::int) < - int (positions (encoder_call (encoder ex_model) []))
        \<or> int (positions (encoder_call (encoder ex_model) [])) \<le> 0"
    by (simp add: enc0)
  ultimately have f0: "forward ex_model [] 0 = Inl IndexError" by (rule mp)
  have "(3::int) < - int (positions (encoder_call (encoder ex_model) [[0, 2, 3]]))
        \<or> int (positions (encoder_call (encoder ex_model) [[0, 2, 3]])) \<le> 3 \<longrightarrow>
       forward ex_model [[0, 2, 3]] 3 = Inl IndexError"
    by (rule conjunct1 [OF conjunct2 [OF conjunct2 [OF th]]])
  moreover have "(3::int) < - int (positions (encoder_call (encoder ex_model) [[0, 2, 3]]))
        \<or> int (positions (encoder_call (encoder ex_model) [[0, 2, 3]])) \<le> 3"
    by (simp add: enc)
  ultimately have f3: "forward ex_model [[0, 2, 3]] 3 = Inl IndexError" by (rule mp)
  have p0: "positions (encoder_call (encoder ex_model) []) = 0" by (simp add: enc0)
  have b: "calc_loss_task ex_model ''task_b'' (Triple [[0, 2]] [[0, 3]] [[0, 2], [0, 3]]) =
       Inr (T1 [Num 1, Num 2, Num 1, Num 2],
            [([[0, 2]], 1), ([[0, 3]], 1), ([[0, 2], [0, 3]], 1)])"
    by (simp add: calc_loss_task_def forward_def select_position_def py_index_def
        encoder_call_def ex_defs)
  have a: "calc_loss_task ex_model ''task_a'' (Pair [[3, 2]] [[0]]) = Inr (T1 [Num 2], [([[3, 2]], 0)])"
    by (simp add: calc_loss_task_def forward_def select_position_def py_index_def
        encoder_call_def ex_defs)
  have ma: "map_of (task_dict ex_model) ''task_a'' = Some task_a"
    by (simp add: ex_model_def ex_registry_def)
  have mb: "map_of (task_dict ex_model) ''task_b'' = Some task_b"
    by (simp add: ex_model_def ex_registry_def)
  have ta: "\<not> truthy (ctrl_token task_a)" by (simp add: task_a_def)
  have tb: "truthy (ctrl_token task_b)" by (simp add: task_b_def)
  show ?thesis using f f0 f3 p0 a b ma mb ta tb by blast
qed

subsection \<open>The loss of one task\<close>

text \<open>
  C6. For a task of type \<open>classification\<close> with \<open>multi_label\<close> set whose loss function
  yields a tensor of shape \<open>[batch, num_labels]\<close>, the loss that \<open>calc_loss\<close> keeps for the
  task has one entry per example, the mean of the example's per-label losses (for a
  non-empty row without not-a-number: their sum divided by their number).
\<close>

theorem calc_loss_multi_label_reduction:
  assumes "map_of (task_dict self) n = Some task"
    and "type task = ''classification''"
    and "multi_label task"
    and "forward self x (if truthy (ctrl_token task) then 1 else 0) = Inr (encoding, r)"
    and "heads self n = Some h"
    and "call_loss2 (loss task) (head_call h encoding) y = Inr (T2 k rows)"
  shows "\<exists>ls. calc_loss_task self n (Pair x y) = Inr (T1 ls, r)
           \<and> length ls = length rows
           \<and> (\<forall>i < length rows. ls ! i = mean_s (rows ! i)
                \<and> (rows ! i \<noteq> [] \<and> NaN \<notin> set (rows ! i) \<longrightarrow>
                     ls ! i = Num (sum_list (map the_num (rows ! i)) / real (length (rows ! i)))))"
proof -
  have "calc_loss_task self n (Pair x y) = Inr (T1 (map mean_s rows), r)"
    using assms by (simp add: calc_loss_task_classification)
  moreover have "\<forall>i < length rows. map mean_s rows ! i = mean_s (rows ! i)
      \<and> (rows ! i \<noteq> [] \<and> NaN \<notin> set (rows ! i) \<longrightarrow>
           map mean_s rows ! i = Num (sum_list (map the_num (rows ! i)) / real (length (rows ! i))))"
    by (simp add: mean_s_def)
  ultimately show ?thesis by (intro exI [of _ "map mean_s rows"]) simp
qed

theorem calc_loss_multi_label_reduction_witness:
  "map_of (task_dict ex_model) ''task_m'' = Some task_m
   \<and> type task_m = ''classification''
   \<and> multi_label task_m
   \<and> forward ex_model [[3, 2], [2, 0]] 0 = Inr ([[1, 1], [0, 1]], [([[3, 2], [2, 0]], 0)])
   \<and> call_loss2 (loss task_m) [[1, 1], [0, 1]] [[1, 0], [0, 1]] =
        Inr (T2 2 [[Num 1, Num 1], [Num 0, Num 1]])
   \<and> calc_loss_task ex_model ''task_m'' (Pair [[3, 2], [2, 0]] [[1, 0], [0, 1]]) =
        Inr (T1 [Num 1, Num (1 / 2)], [([[3, 2], [2, 0]], 0)])"
proof -
  have m: "map_of (task_dict ex_model) ''task_m'' = Some task_m"
    by (simp add: ex_model_def ex_registry_def)
  have ty: "type task_m = ''classification''" and ml: "multi_label task_m"
    and ct: "\<not> truthy (ctrl_token task_m)"
    by (simp_all add: task_m_def)
  have f: "forward ex_model [[3, 2], [2, 0]] 0 = Inr ([[1, 1], [0, 1]], [([[3, 2], [2, 0]], 0)])"
    by (simp add: forward_def select_position_def py_index_def encoder_call_def ex_defs)
  have hd: "heads ex_model ''task_m'' = Some ex_head"
    by (simp add: ex_defs)
  have l: "call_loss2 (loss task_m) (head_call ex_head [[1, 1], [0, 1]]) [[1, 0], [0, 1]] =
        Inr (T2 2 [[Num 1, Num 1], [Num 0, Num 1]])"
    by (simp add: task_m_def ex_loss2_per_label_def head_call_def ex_head_def)
  have l': "call_loss2 (loss task_m) [[1, 1], [0, 1]] [[1, 0], [0, 1]] =
        Inr (T2 2 [[Num 1, Num 1], [Num 0, Num 1]])"
    by (simp add: task_m_def ex_loss2_per_label_def)
  from f ct have f': "forward ex_model [[3, 2], [2, 0]] (if truthy (ctrl_token task_m) then 1 else 0)
       = Inr ([[1, 1], [0, 1]], [([[3, 2], [2, 0]], 0)])" by simp
  from calc_loss_multi_label_reduction [OF m ty ml f' hd l]
  obtain ls where c: "calc_loss_task ex_model ''task_m'' (Pair [[3, 2], [2, 0]] [[1, 0], [0, 1]]) =
        Inr (T1 ls, [([[3, 2], [2, 0]], 0)])"
    and len: "length ls = length [[Num 1, Num 1], [Num 0, Num 1]]"
    and el: "\<forall>i < length [[Num 1, Num 1], [Num 0, Num 1]]. ls ! i = mean_s ([[Num 1, Num 1], [Num 0, Num 1]] ! i)
                \<and> ([[Num 1, Num 1], [Num 0, Num 1]] ! i \<noteq> [] \<and> NaN \<notin> set ([[Num 1, Num 1], [Num 0, Num 1]] ! i) \<longrightarrow>
                     ls ! i = Num (sum_list (map the_num ([[Num 1, Num 1], [Num 0, Num 1]] ! i)) / real (length ([[Num 1, Num 1], [Num 0, Num 1]] ! i))))"
    by blast
  from el have "ls ! 0 = Num 1" "ls ! 1 = Num (1 / 2)"
    by (auto simp: mean_s_def)
  with len have "ls = [Num 1, Num (1 / 2)]"
    by (cases ls; cases "tl ls") auto
  with c m ty ml f l' show ?thesis by simp
qed

text \<open>
  C2, as the claim states it, fails: a task whose type string is
  \<open>multi_label_classification\<close> does not take the head path. With a pair payload the
  three-way indexing raises, and with a triple payload the encoder runs three times and
  no head is applied, whereas the same task with type \<open>classification\<close> makes one run.
\<close>

theorem calc_loss_dispatch_counterexample:
  "type task_mlc = ''multi_label_classification''
   \<and> map_of (task_dict ex_model) ''mlc'' = Some task_mlc
   \<and> calc_loss_task ex_model ''mlc'' (Pair [[3, 2]] [[1, 0]]) = Inl PayloadError
   \<and> type task_mlc3 = ''multi_label_classification''
   \<and> map_of (task_dict ex_model) ''mlc3'' = Some task_mlc3
   \<and> calc_loss_task ex_model ''mlc3'' (Triple [[3, 2]] [[2, 0]] [[0, 3]]) =
        Inr (T1 [Num 2, Num 1, Num 0], [([[3, 2]], 0), ([[2, 0]], 0), ([[0, 3]], 0)])
   \<and> type task_m = ''classification''
   \<and> map_of (task_dict ex_model) ''task_m'' = Some task_m
   \<and> calc_loss_task ex_model ''task_m'' (Pair [[3, 2]] [[1, 0]]) =
        Inr (T1 [Num 1], [([[3, 2]], 0)])"
  by (simp add: calc_loss_task_def forward_def select_position_def py_index_def
      encoder_call_def mean_s_def ex_defs)

text \<open>
  C2, amended. \<open>calc_loss\<close> compares the type of the task with the one string
  \<open>classification\<close>. Every other type (\<open>ir\<close>, \<open>triplet\<close>, and any further string) takes
  the three-way path: query, positive and negative are each encoded by one run with the
  same index and the loss is called with the three embeddings. Type \<open>classification\<close>
  takes the single-encoding path: one run, the head registered under the task's name
  applied to the encoding, the loss called with logits and labels, and the mean over
  the labels when \<open>multi_label\<close> is set.
\<close>

theorem calc_loss_dispatch_on_classification:
  assumes "map_of (task_dict self) n = Some task"
  shows "(type task \<noteq> ''classification'' \<longrightarrow>
            calc_loss_task self n (Pair x y) = Inl PayloadError
          \<and> (\<forall>t runs. calc_loss_task self n (Triple q p ng) = Inr (t, runs) \<longleftrightarrow>
               (\<exists>qe pe ne.
                  forward self q (if truthy (ctrl_token task) then 1 else 0) =
                    Inr (qe, [(q, if truthy (ctrl_token task) then 1 else 0)])
                \<and> forward self p (if truthy (ctrl_token task) then 1 else 0) =
                    Inr (pe, [(p, if truthy (ctrl_token task) then 1 else 0)])
                \<and> forward self ng (if truthy (ctrl_token task) then 1 else 0) =
                    Inr (ne, [(ng, if truthy (ctrl_token task) then 1 else 0)])
                \<and> call_loss3 (loss task) qe pe ne = Inr t
                \<and> runs = [(q, if truthy (ctrl_token task) then 1 else 0),
                           (p, if truthy (ctrl_token task) then 1 else 0),
                           (ng, if truthy (ctrl_token task) then 1 else 0)])))
       \<and> (type task = ''classification'' \<longrightarrow>
            calc_loss_task self n (Triple q p ng) = Inl PayloadError
          \<and> (\<forall>t runs. calc_loss_task self n (Pair x y) = Inr (t, runs) \<longleftrightarrow>
               (\<exists>encoding h c.
                  forward self x (if truthy (ctrl_token task) then 1 else 0) =
                    Inr (encoding, [(x, if truthy (ctrl_token task) then 1 else 0)])
                \<and> heads self n = Some h
                \<and> call_loss2 (loss task) (head_call h encoding) y = Inr c
                \<and> (if multi_label task then torch_mean_dim1 c = Inr t else t = c)
                \<and> runs = [(x, if truthy (ctrl_token task) then 1 else 0)])))"
proof (intro conjI impI allI)
  assume ty: "type task \<noteq> ''classification''"
  show "calc_loss_task self n (Pair x y) = Inl PayloadError"
    using assms ty by (rule calc_loss_task_three_way_pair)
  fix t runs
  show "calc_loss_task self n (Triple q p ng) = Inr (t, runs) \<longleftrightarrow>
               (\<exists>qe pe ne.
                  forward self q (if truthy (ctrl_token task) then 1 else 0) =
                    Inr (qe, [(q, if truthy (ctrl_token task) then 1 else 0)])
                \<and> forward self p (if truthy (ctrl_token task) then 1 else 0) =
                    Inr (pe, [(p, if truthy (ctrl_token task) then 1 else 0)])
                \<and> forward self ng (if truthy (ctrl_token task) then 1 else 0) =
                    Inr (ne, [(ng, if truthy (ctrl_token task) then 1 else 0)])
                \<and> call_loss3 (loss task) qe pe ne = Inr t
                \<and> runs = [(q, if truthy (ctrl_token task) then 1 else 0),
                           (p, if truthy (ctrl_token task) then 1 else 0),
                           (ng, if truthy (ctrl_token task) then 1 else 0)])"
    unfolding calc_loss_task_three_way [OF assms ty] forward_Inr_iff by auto
next
  assume ty: "type task = ''classification''"
  show "calc_loss_task self n (Triple q p ng) = Inl PayloadError"
    using assms ty by (rule calc_loss_task_classification_triple)
  fix t runs
  show "calc_loss_task self n (Pair x y) = Inr (t, runs) \<longleftrightarrow>
               (\<exists>encoding h c.
                  forward self x (if truthy (ctrl_token task) then 1 else 0) =
                    Inr (encoding, [(x, if truthy (ctrl_token task) then 1 else 0)])
                \<and> heads self n = Some h
                \<and> call_loss2 (loss task) (head_call h encoding) y = Inr c
                \<and> (if multi_label task then torch_mean_dim1 c = Inr t else t = c)
                \<and> runs = [(x, if truthy (ctrl_token task) then 1 else 0)])"
    unfolding calc_loss_task_classification [OF assms ty] forward_Inr_iff by auto
qed


theorem calc_loss_dispatch_on_classification_witness:
  "map_of (task_dict ex_model) ''task_b'' = Some task_b
   \<and> type task_b \<noteq> ''classification''
   \<and> calc_loss_task ex_model ''task_b'' (Pair [[3, 2]] [[1, 0]]) = Inl PayloadError
   \<and> calc_loss_task ex_model ''task_b'' (Triple [[0, 2]] [[0, 3]] [[0, 2], [0, 3]]) =
       Inr (T1 [Num 1, Num 2, Num 1, Num 2],
            [([[0, 2]], 1), ([[0, 3]], 1), ([[0, 2], [0, 3]], 1)])
   \<and> map_of (task_dict ex_model) ''task_a'' = Some task_a
   \<and> type task_a = ''classification''
   \<and> calc_loss_task ex_model ''task_a'' (Triple [[0, 2]] [[0, 3]] [[0, 2], [0, 3]]) = Inl PayloadError
   \<and> calc_loss_task ex_model ''task_a'' (Pair [[3, 2]] [[1, 0]]) = Inr (T1 [Num 2], [([[3, 2]], 0)])"
proof -
  have mb: "map_of (task_dict ex_model) ''task_b'' = Some task_b"
    and ma: "map_of (task_dict ex_model) ''task_a'' = Some task_a"
    by (simp_all add: ex_model_def ex_registry_def)
  have tb: "type task_b \<noteq> ''classification''" by (simp add: task_b_def)
  have ta: "type task_a = ''classification''" by (simp add: task_a_def)
  note b = calc_loss_dispatch_on_classification [OF mb, of "[[3, 2]]" "[[1, 0]]"
      "[[0, 2]]" "[[0, 3]]" "[[0, 2], [0, 3]]"]
  note a = calc_loss_dispatch_on_classification [OF ma, of "[[3, 2]]" "[[1, 0]]"
      "[[0, 2]]" "[[0, 3]]" "[[0, 2], [0, 3]]"]
  from b tb have b1: "calc_loss_task ex_model ''task_b'' (Pair [[3, 2]] [[1, 0]]) = Inl PayloadError"
    by blast
  from a ta have a1: "calc_loss_task ex_model ''task_a'' (Triple [[0, 2]] [[0, 3]] [[0, 2], [0, 3]])
      = Inl PayloadError"
    by blast
  have b2: "calc_loss_task ex_model ''task_b'' (Triple [[0, 2]] [[0, 3]] [[0, 2], [0, 3]]) =
       Inr (T1 [Num 1, Num 2, Num 1, Num 2],
            [([[0, 2]], 1), ([[0, 3]], 1), ([[0, 2], [0, 3]], 1)])"
    by (simp add: calc_loss_task_def forward_def select_position_def py_index_def
        encoder_call_def ex_defs)
  have a2: "calc_loss_task ex_model ''task_a'' (Pair [[3, 2]] [[1, 0]]) = Inr (T1 [Num 2], [([[3, 2]], 0)])"
    by (simp add: calc_loss_task_def forward_def select_position_def py_index_def
        encoder_call_def ex_defs)
  show ?thesis using ma mb ta tb a1 a2 b1 b2 by blast
qed

subsection \<open>Means and concatenation of loss tensors\<close>

lemma mean_s_mset:
  assumes "mset vs = mset ws"
  shows "mean_s vs = mean_s ws"
proof -
  have e: "vs = [] \<longleftrightarrow> ws = []" using mset_eq_length [OF assms] by auto
  have s: "set vs = set ws" using assms by (rule mset_eq_setD)
  have l: "length vs = length ws" using assms by (rule mset_eq_length)
  have "sum_mset (mset (map the_num vs)) = sum_mset (mset (map the_num ws))"
    using assms by simp
  then have sm: "sum_list (map the_num vs) = sum_list (map the_num ws)"
    by (simp only: sum_mset_sum_list)
  show ?thesis unfolding mean_s_def e s l sm ..
qed

lemma mset_concat_map:
  assumes "mset xs = mset ys"
  shows "mset (concat (map f xs)) = mset (concat (map f ys))"
proof -
  have "mset (concat (map f xs)) = sum_mset (image_mset (\<lambda>x. mset (f x)) (mset xs))" for xs
    by (induction xs) simp_all
  then show ?thesis using assms by simp
qed

lemma elements_empty_T1: "is_empty_T1 t \<Longrightarrow> elements t = []"
  by (cases t rule: is_empty_T1.cases) simp_all

lemma concat_elements_filter:
  "concat (map elements (filter (\<lambda>t. \<not> is_empty_T1 t) ts)) = concat (map elements ts)"
  by (induction ts) (simp_all add: elements_empty_T1)

lemma is_T2_elements: "is_T2 k t \<Longrightarrow> elements t = concat (rows_of t)"
  by (cases t) simp_all

lemma concat_rows_of: "list_all (is_T2 k) us \<Longrightarrow> concat (concat (map rows_of us)) = concat (map elements us)"
proof (induction us)
  case Nil
  then show ?case by simp
next
  case (Cons u us)
  from Cons.prems have "is_T2 k u" by simp
  then have "elements u = concat (rows_of u)" by (rule is_T2_elements)
  with Cons show ?case by simp
qed

lemma torch_cat_elements:
  assumes "torch_cat ts = Inr t"
  shows "elements t = concat (map elements ts)"
proof -
  let ?us = "filter (\<lambda>t. \<not> is_empty_T1 t) ts"
  have c: "concat (map elements ?us) = concat (map elements ts)"
    by (rule concat_elements_filter)
  show ?thesis
  proof (cases ?us)
    case Nil
    with assms c show ?thesis by (auto simp: torch_cat_def split: if_splits)
  next
    case (Cons u us)
    show ?thesis
    proof (cases u)
      case (T0 v)
      with assms Cons show ?thesis by (simp add: torch_cat_def split: if_splits)
    next
      case (T1 vs)
      with assms Cons have "t = T1 (concat (map elements (u # us)))"
        by (simp add: torch_cat_def split: if_splits)
      then show ?thesis using c Cons by simp
    next
      case (T2 k rows)
      with assms Cons have t: "t = T2 k (concat (map rows_of (u # us)))" and a: "list_all (is_T2 k) us"
        by (simp_all add: torch_cat_def split: if_splits)
      from a T2 have "list_all (is_T2 k) (u # us)" by simp
      then have "concat (concat (map rows_of (u # us))) = concat (map elements (u # us))"
        by (rule concat_rows_of)
      then show ?thesis using t c Cons by simp
    qed
  qed
qed

lemma torch_cat_Inr_iff:
  "(\<exists>t. torch_cat ts = Inr t) \<longleftrightarrow>
     ts \<noteq> [] \<and> ((\<forall>t \<in> set ts. \<not> is_empty_T1 t \<longrightarrow> is_T1 t)
               \<or> (\<exists>k. \<forall>t \<in> set ts. \<not> is_empty_T1 t \<longrightarrow> is_T2 k t))"
proof -
  let ?us = "filter (\<lambda>t. \<not> is_empty_T1 t) ts"
  have a1: "(\<forall>t \<in> set ts. \<not> is_empty_T1 t \<longrightarrow> is_T1 t) \<longleftrightarrow> list_all is_T1 ?us"
    by (auto simp: list_all_iff)
  have a2: "(\<forall>t \<in> set ts. \<not> is_empty_T1 t \<longrightarrow> is_T2 k t) \<longleftrightarrow> list_all (is_T2 k) ?us" for k
    by (auto simp: list_all_iff)
  have goal: "(\<exists>t. torch_cat ts = Inr t) \<longleftrightarrow>
     ts \<noteq> [] \<and> (list_all is_T1 ?us \<or> (\<exists>k. list_all (is_T2 k) ?us))"
  proof (cases ?us)
    case Nil
    then show ?thesis by (simp add: torch_cat_def)
  next
    case (Cons u us)
    then have ne: "ts \<noteq> []" by auto
    show ?thesis
    proof (cases u)
      case (T0 v)
      with Cons ne show ?thesis by (simp add: torch_cat_def)
    next
      case (T1 vs)
      with Cons ne show ?thesis by (simp add: torch_cat_def)
    next
      case (T2 k rows)
      have "(\<exists>k'. k' = k \<and> list_all (is_T2 k') us) = list_all (is_T2 k) us" by simp
      with T2 Cons ne show ?thesis by (simp add: torch_cat_def)
    qed
  qed
  show ?thesis unfolding a1 a2 by (rule goal)
qed

lemma torch_cat_mset:
  assumes "mset ts = mset ts'" and "torch_cat ts = Inr t"
  shows "\<exists>t'. torch_cat ts' = Inr t' \<and> torch_mean t' = torch_mean t"
proof -
  have s: "set ts = set ts'" using assms(1) by (rule mset_eq_setD)
  have e: "ts = [] \<longleftrightarrow> ts' = []" using mset_eq_length [OF assms(1)] by auto
  have "\<exists>t. torch_cat ts = Inr t" using assms(2) by blast
  then have "\<exists>t'. torch_cat ts' = Inr t'"
    unfolding torch_cat_Inr_iff s e .
  then obtain t' where t': "torch_cat ts' = Inr t'" by blast
  have "mset (elements t') = mset (elements t)"
    unfolding torch_cat_elements [OF t'] torch_cat_elements [OF assms(2)]
    using assms(1) [symmetric] by (rule mset_concat_map)
  then have "torch_mean t' = torch_mean t"
    unfolding torch_mean_def by (rule mean_s_mset)
  with t' show ?thesis by blast
qed

lemma torch_cat_all_T1:
  assumes "ts \<noteq> []" and "\<forall>t \<in> set ts. is_T1 t"
  shows "\<exists>t. torch_cat ts = Inr t"
  unfolding torch_cat_Inr_iff using assms by blast

subsection \<open>The loop over the tasks of a batch\<close>

lemma calc_loss_loop_collect:
  "calc_loss_loop self b losses lpt runs =
     (case collect (map (\<lambda>(n, p). calc_loss_task self n p) b) of
        Inl e \<Rightarrow> Inl e
      | Inr rs \<Rightarrow>
          Inr (losses @ map fst rs,
               lpt ++ map_of (rev (zip (map fst b) (map (\<lambda>r. torch_mean (fst r)) rs))),
               runs @ concat (map snd rs)))"
proof (induction b arbitrary: losses lpt runs)
  case Nil
  then show ?case by simp
next
  case (Cons np rest)
  obtain n p where np: "np = (n, p)" by (cases np)
  show ?case
  proof (cases "calc_loss_task self n p")
    case (Inl e)
    then show ?thesis by (simp add: np)
  next
    case (Inr cr)
    obtain c r where cr: "cr = (c, r)" by (cases cr)
    show ?thesis
    proof (cases "collect (map (\<lambda>(n, p). calc_loss_task self n p) rest)")
      case (Inl e)
      then show ?thesis using Inr cr by (simp add: np Cons.IH)
    next
      case rs: (Inr rs)
      have "lpt(n \<mapsto> torch_mean c) ++ m = lpt ++ ([n \<mapsto> torch_mean c] ++ m)" for m
        by (rule ext) (simp add: map_add_def split: option.splits)
      then show ?thesis using Inr cr rs
        by (simp add: np Cons.IH map_add_assoc)
    qed
  qed
qed

lemma calc_loss_collect:
  "calc_loss self b i =
     (case collect (map (\<lambda>(n, p). calc_loss_task self n p) b) of
        Inl e \<Rightarrow> Inl e
      | Inr rs \<Rightarrow>
          (case torch_cat (map fst rs) of
             Inl e \<Rightarrow> Inl e
           | Inr t \<Rightarrow>
               Inr (torch_mean t,
                    map_of (rev (zip (map fst b) (map (\<lambda>r. torch_mean (fst r)) rs))),
                    concat (map snd rs))))"
  by (simp add: calc_loss_def calc_loss_loop_collect split: sum.splits)

lemma calc_loss_task_fails:
  assumes "(n, p) \<in> set b" and "calc_loss_task self n p = Inl e"
  shows "\<exists>e'. calc_loss self b i = Inl e'"
proof -
  have "Inl e \<in> set (map (\<lambda>(n, p). calc_loss_task self n p) b)"
    using assms by force
  then obtain e' where "collect (map (\<lambda>(n, p). calc_loss_task self n p) b) = Inl e'"
    using collect_Inl_iff by blast
  then show ?thesis by (simp add: calc_loss_collect)
qed

lemma calc_loss_Inr_iff:
  "calc_loss self b i = Inr (l, lpt, runs) \<longleftrightarrow>
     (\<exists>rs t. map (\<lambda>(n, p). calc_loss_task self n p) b = map Inr rs
        \<and> torch_cat (map fst rs) = Inr t
        \<and> l = torch_mean t
        \<and> lpt = map_of (rev (zip (map fst b) (map (\<lambda>r. torch_mean (fst r)) rs)))
        \<and> runs = concat (map snd rs))"
  unfolding calc_loss_collect
  by (auto simp: collect_Inr_iff collect_map_Inr split: sum.splits)

lemma map_of_rev_zip_nth:
  assumes "distinct ks" and "length vs = length ks" and "j < length ks"
  shows "map_of (rev (zip ks vs)) (ks ! j) = Some (vs ! j)"
proof -
  have d: "distinct (map fst (zip ks vs))" using assms(1,2) by (simp add: map_fst_zip)
  have "map_of (rev (zip ks vs)) = map_of (zip ks vs)"
    using d by (simp add: map_of_inject_set distinct_rev rev_map [symmetric])
  then show ?thesis using assms by (simp add: map_of_zip_nth)
qed

lemma dom_map_of_rev_zip:
  assumes "length vs = length ks"
  shows "dom (map_of (rev (zip ks vs))) = set ks"
  using assms by (simp add: dom_map_of_conv_image_fst map_fst_zip flip: set_map)


text \<open>
  C1. Whenever \<open>calc_loss\<close> returns on a batch (a dict: its task names are distinct),
  every task's step has returned its per-example loss tensor (reduced over the labels
  where the task is multi-label), the step loss is the mean over the elements of all
  these tensors taken together, and the mapping of per-task losses has exactly the
  tasks of the batch as keys, each with the mean of that task's tensor. It does return
  when the batch is not empty and every task's step yields a one-dimensional tensor.
\<close>

theorem calc_loss_mean_of_concatenation:
  assumes "distinct (map fst train_batch)"
  shows "(\<forall>l lpt runs. calc_loss self train_batch i = Inr (l, lpt, runs) \<longrightarrow>
           (\<exists>rs. map (\<lambda>(n, p). calc_loss_task self n p) train_batch = map Inr rs
              \<and> l = mean_s (concat (map (\<lambda>r. elements (fst r)) rs))
              \<and> dom lpt = set (map fst train_batch)
              \<and> (\<forall>j < length train_batch.
                    lpt (fst (train_batch ! j)) = Some (mean_s (elements (fst (rs ! j)))))
              \<and> runs = concat (map snd rs)))
       \<and> (train_batch \<noteq> []
            \<and> (\<forall>(n, p) \<in> set train_batch. \<exists>vs r. calc_loss_task self n p = Inr (T1 vs, r))
          \<longrightarrow> (\<exists>res. calc_loss self train_batch i = Inr res))"
proof (intro conjI allI impI)
  fix l lpt runs
  assume "calc_loss self train_batch i = Inr (l, lpt, runs)"
  then obtain rs t where
    rs: "map (\<lambda>(n, p). calc_loss_task self n p) train_batch = map Inr rs"
    and cat: "torch_cat (map fst rs) = Inr t"
    and l: "l = torch_mean t"
    and lpt: "lpt = map_of (rev (zip (map fst train_batch) (map (\<lambda>r. torch_mean (fst r)) rs)))"
    and runs: "runs = concat (map snd rs)"
    unfolding calc_loss_Inr_iff by blast
  from rs have len: "length rs = length train_batch" by (metis length_map)
  have l': "l = mean_s (concat (map (\<lambda>r. elements (fst r)) rs))"
    using torch_cat_elements [OF cat] by (simp add: l torch_mean_def comp_def)
  have dom: "dom lpt = set (map fst train_batch)"
    unfolding lpt using len by (intro dom_map_of_rev_zip) simp
  have each: "lpt (fst (train_batch ! j)) = Some (mean_s (elements (fst (rs ! j))))"
    if j: "j < length train_batch" for j
  proof -
    have "lpt (map fst train_batch ! j) = Some (map (\<lambda>r. torch_mean (fst r)) rs ! j)"
      unfolding lpt using assms len j by (intro map_of_rev_zip_nth) simp_all
    then show ?thesis using j len by (simp add: torch_mean_def)
  qed
  show "\<exists>rs. map (\<lambda>(n, p). calc_loss_task self n p) train_batch = map Inr rs
              \<and> l = mean_s (concat (map (\<lambda>r. elements (fst r)) rs))
              \<and> dom lpt = set (map fst train_batch)
              \<and> (\<forall>j < length train_batch.
                    lpt (fst (train_batch ! j)) = Some (mean_s (elements (fst (rs ! j)))))
              \<and> runs = concat (map snd rs)"
    using rs l' dom each runs by blast
next
  assume a: "train_batch \<noteq> []
      \<and> (\<forall>(n, p) \<in> set train_batch. \<exists>vs r. calc_loss_task self n p = Inr (T1 vs, r))"
  then have "\<forall>x \<in> set train_batch. \<exists>res. (case x of (n, p) \<Rightarrow> calc_loss_task self n p) = Inr res
      \<and> is_T1 (fst res)"
    by fastforce
  then have "\<exists>rs. map (\<lambda>(n, p). calc_loss_task self n p) train_batch = map Inr rs
      \<and> (\<forall>r \<in> set rs. is_T1 (fst r))"
  proof (induction train_batch)
    case Nil
    then show ?case by simp
  next
    case (Cons x xs)
    then obtain rs where rs: "map (\<lambda>(n, p). calc_loss_task self n p) xs = map Inr rs"
        "\<forall>r \<in> set rs. is_T1 (fst r)" by auto
    from Cons.prems obtain res where
      "(case x of (n, p) \<Rightarrow> calc_loss_task self n p) = Inr res" "is_T1 (fst res)" by auto
    with rs have "map (\<lambda>(n, p). calc_loss_task self n p) (x # xs) = map Inr (res # rs)
        \<and> (\<forall>r \<in> set (res # rs). is_T1 (fst r))" by simp
    then show ?case by blast
  qed
  then obtain rs where rs: "map (\<lambda>(n, p). calc_loss_task self n p) train_batch = map Inr rs"
    and t1: "\<forall>r \<in> set rs. is_T1 (fst r)" by blast
  from rs a have "map fst rs \<noteq> []" by auto
  moreover from t1 have "\<forall>t \<in> set (map fst rs). is_T1 t" by simp
  ultimately obtain t where "torch_cat (map fst rs) = Inr t"
    using torch_cat_all_T1 by blast
  with rs show "\<exists>res. calc_loss self train_batch i = Inr res"
    using calc_loss_Inr_iff by blast
qed

theorem calc_loss_mean_of_concatenation_witness:
  "distinct (map fst ex_batch)
   \<and> ex_batch \<noteq> []
   \<and> calc_loss_task ex_model ''task_a'' (Pair [[3, 2]] [[0]]) = Inr (T1 [Num 2], [([[3, 2]], 0)])
   \<and> calc_loss_task ex_model ''task_b'' (Triple [[0, 2]] [[0, 3]] [[0, 2], [0, 3]]) =
       Inr (T1 [Num 1, Num 2, Num 1, Num 2],
            [([[0, 2]], 1), ([[0, 3]], 1), ([[0, 2], [0, 3]], 1)])
   \<and> (\<exists>lpt. calc_loss ex_model ex_batch 0 =
         Inr (Num (8 / 5), lpt,
              [([[3, 2]], 0), ([[0, 2]], 1), ([[0, 3]], 1), ([[0, 2], [0, 3]], 1)])
       \<and> dom lpt = {''task_a'', ''task_b''}
       \<and> lpt ''task_a'' = Some (Num 2) \<and> lpt ''task_b'' = Some (Num (3 / 2)))
   \<and> mean_s [Num 2, Num 1, Num 2, Num 1, Num 2] = Num (8 / 5)
   \<and> mean_s [Num 2, Num (3 / 2)] = Num (7 / 4)"
proof -
  have d: "distinct (map fst ex_batch)" and ne: "ex_batch \<noteq> []"
    by (simp_all add: ex_batch_def)
  have a: "calc_loss_task ex_model ''task_a'' (Pair [[3, 2]] [[0]]) = Inr (T1 [Num 2], [([[3, 2]], 0)])"
    by (simp add: calc_loss_task_def forward_def select_position_def py_index_def
        encoder_call_def ex_defs)
  have b: "calc_loss_task ex_model ''task_b'' (Triple [[0, 2]] [[0, 3]] [[0, 2], [0, 3]]) =
       Inr (T1 [Num 1, Num 2, Num 1, Num 2],
            [([[0, 2]], 1), ([[0, 3]], 1), ([[0, 2], [0, 3]], 1)])"
    by (simp add: calc_loss_task_def forward_def select_position_def py_index_def
        encoder_call_def ex_defs)
  have all: "\<forall>(n, p) \<in> set ex_batch. \<exists>vs r. calc_loss_task ex_model n p = Inr (T1 vs, r)"
    using a b by (simp add: ex_batch_def)
  note th = calc_loss_mean_of_concatenation [OF d, of ex_model 0]
  from th ne all obtain res where res: "calc_loss ex_model ex_batch 0 = Inr res" by blast
  obtain l lpt runs where r3: "res = (l, lpt, runs)" by (cases res)
  from th res r3 obtain rs where
    rs: "map (\<lambda>(n, p). calc_loss_task ex_model n p) ex_batch = map Inr rs"
    and l: "l = mean_s (concat (map (\<lambda>r. elements (fst r)) rs))"
    and dom: "dom lpt = set (map fst ex_batch)"
    and each: "\<forall>j < length ex_batch.
        lpt (fst (ex_batch ! j)) = Some (mean_s (elements (fst (rs ! j))))"
    and runs: "runs = concat (map snd rs)"
    by blast
  from rs a b have rs': "rs = [(T1 [Num 2], [([[3, 2]], 0)]),
      (T1 [Num 1, Num 2, Num 1, Num 2], [([[0, 2]], 1), ([[0, 3]], 1), ([[0, 2], [0, 3]], 1)])]"
    by (auto simp: ex_batch_def)
  have m1: "mean_s [Num 2, Num 1, Num 2, Num 1, Num 2] = Num (8 / 5)"
    and m2: "mean_s [Num 2, Num (3 / 2)] = Num (7 / 4)"
    by (simp_all add: mean_s_def)
  have l': "l = Num (8 / 5)" using l m1 by (simp add: rs')
  have runs': "runs = [([[3, 2]], 0), ([[0, 2]], 1), ([[0, 3]], 1), ([[0, 2], [0, 3]], 1)]"
    using runs by (simp add: rs')
  have dom': "dom lpt = {''task_a'', ''task_b''}" using dom by (simp add: ex_batch_def)
  have len: "length ex_batch = 2" by (simp add: ex_batch_def)
  from each have "lpt (fst (ex_batch ! 0)) = Some (mean_s (elements (fst (rs ! 0))))"
    unfolding len by (rule allE [of _ 0]) simp
  then have la: "lpt ''task_a'' = Some (Num 2)"
    by (simp add: ex_batch_def rs' mean_s_def)
  from each have "lpt (fst (ex_batch ! 1)) = Some (mean_s (elements (fst (rs ! 1))))"
    unfolding len by (rule allE [of _ 1]) simp
  then have lb: "lpt ''task_b'' = Some (Num (3 / 2))"
    by (simp add: ex_batch_def rs' mean_s_def)
  from res r3 l' runs' have "calc_loss ex_model ex_batch 0 =
         Inr (Num (8 / 5), lpt,
              [([[3, 2]], 0), ([[0, 2]], 1), ([[0, 3]], 1), ([[0, 2], [0, 3]], 1)])"
    by simp
  with d ne a b dom' la lb m1 m2 show ?thesis by blast
qed

lemma map_Inr_projr:
  assumes "map f xs = map Inr rs"
  shows "rs = map (\<lambda>x. projr (f x)) xs" and "\<forall>x \<in> set xs. f x = Inr (projr (f x))"
proof -
  show "rs = map (\<lambda>x. projr (f x)) xs"
    using assms by (induction xs arbitrary: rs) auto
  show "\<forall>x \<in> set xs. f x = Inr (projr (f x))"
    using assms by (induction xs arbitrary: rs) auto
qed

lemma map_projr_Inr:
  assumes "\<forall>x \<in> set xs. f x = Inr (projr (f x))"
  shows "map f xs = map Inr (map (\<lambda>x. projr (f x)) xs)"
  using assms by (induction xs) auto

lemma map_of_rev_perm:
  assumes "distinct (map fst xs)" and "mset ys = mset xs"
  shows "map_of (rev ys) = map_of (rev xs)"
proof -
  have "mset (map fst ys) = mset (map fst xs)" using assms(2) by simp
  then have dy: "distinct (map fst ys)" using assms(1) by (metis mset_eq_imp_distinct_iff)
  have s: "set ys = set xs" using assms(2) by (rule mset_eq_setD)
  have "map_of (rev ys) = map_of (rev xs) \<longleftrightarrow> set (rev ys) = set (rev xs)"
    using dy assms(1) by (intro map_of_inject_set) (simp_all add: rev_map [symmetric])
  then show ?thesis using s by simp
qed

lemma zip_map_fst_map: "zip (map fst xs) (map g xs) = map (\<lambda>x. (fst x, g x)) xs"
  by (induction xs) auto

text \<open>
  C5. Reordering the tasks of a batch changes neither the step loss nor the mapping of
  per-task losses: when \<open>calc_loss\<close> returns on a batch, it returns the same loss and the
  same mapping on every permutation of the batch, with the same encoder runs in another
  order; and when it raises on a batch, it raises on every permutation. This holds in
  exact arithmetic whether or not a loss is not-a-number, so in particular when all
  per-example losses are finite.
\<close>

theorem calc_loss_permutation_invariant:
  assumes "distinct (map fst train_batch)" and "mset train_batch' = mset train_batch"
  shows "(\<forall>l lpt runs. calc_loss self train_batch i = Inr (l, lpt, runs) \<longrightarrow>
            (\<exists>runs'. calc_loss self train_batch' i' = Inr (l, lpt, runs') \<and> mset runs' = mset runs))
       \<and> ((\<exists>e. calc_loss self train_batch i = Inl e) \<longrightarrow> (\<exists>e. calc_loss self train_batch' i' = Inl e))"
proof -
  let ?f = "\<lambda>(n, p). calc_loss_task self n p"
  have fwd: "\<exists>runs'. calc_loss self ys j' = Inr (l, lpt, runs') \<and> mset runs' = mset runs"
    if d: "distinct (map fst xs)" and m: "mset ys = mset xs"
      and c: "calc_loss self xs j = Inr (l, lpt, runs)" for xs ys j j' l lpt runs
  proof -
    from c obtain rs t where
      rs: "map ?f xs = map Inr rs"
      and cat: "torch_cat (map fst rs) = Inr t"
      and l: "l = torch_mean t"
      and lpt: "lpt = map_of (rev (zip (map fst xs) (map (\<lambda>r. torch_mean (fst r)) rs)))"
      and runs: "runs = concat (map snd rs)"
      unfolding calc_loss_Inr_iff by blast
    let ?g = "\<lambda>x. projr (?f x)"
    have rs_eq: "rs = map ?g xs" and ok: "\<forall>x \<in> set xs. ?f x = Inr (?g x)"
      using map_Inr_projr [OF rs] by blast+
    have "set ys = set xs" using m by (rule mset_eq_setD)
    with ok have "\<forall>x \<in> set ys. ?f x = Inr (?g x)" by simp
    then have rs': "map ?f ys = map Inr (map ?g ys)" by (rule map_projr_Inr)
    have mrs: "mset (map ?g ys) = mset rs" using m by (simp add: rs_eq)
    then have "mset (map fst rs) = mset (map fst (map ?g ys))" by (metis mset_map)
    from torch_cat_mset [OF this cat] obtain t' where
      cat': "torch_cat (map fst (map ?g ys)) = Inr t'" and mean: "torch_mean t' = torch_mean t"
      by blast
    let ?h = "\<lambda>x. (fst x, torch_mean (fst (?g x)))"
    have z: "zip (map fst zs) (map (\<lambda>r. torch_mean (fst r)) (map ?g zs)) = map ?h zs" for zs
      using zip_map_fst_map [of zs "\<lambda>x. torch_mean (fst (?g x))"] by (simp add: comp_def)
    have "distinct (map fst (map ?h xs))" using d by (simp add: comp_def)
    moreover have "mset (map ?h ys) = mset (map ?h xs)" using m by simp
    ultimately have "map_of (rev (map ?h ys)) = map_of (rev (map ?h xs))"
      by (rule map_of_rev_perm)
    then have lpt': "lpt = map_of (rev (zip (map fst ys) (map (\<lambda>r. torch_mean (fst r)) (map ?g ys))))"
      unfolding lpt rs_eq z by simp
    have "mset (concat (map snd (map ?g ys))) = mset (concat (map snd rs))"
      using mrs by (rule mset_concat_map)
    then have mruns: "mset (concat (map snd (map ?g ys))) = mset runs" by (simp add: runs)
    have l': "l = torch_mean t'" using l mean by simp
    have "calc_loss self ys j' = Inr (l, lpt, concat (map snd (map ?g ys)))"
      unfolding calc_loss_Inr_iff
      apply (rule exI [of _ "map ?g ys"], rule exI [of _ t'])
      apply (intro conjI)
          apply (rule rs')
         apply (rule cat')
        apply (rule l')
       apply (rule lpt')
      apply (rule refl)
      done
    with mruns show ?thesis by blast
  qed
  have d': "distinct (map fst train_batch')"
  proof -
    have "mset (map fst train_batch') = mset (map fst train_batch)" using assms(2) by simp
    then show ?thesis using assms(1) by (metis mset_eq_imp_distinct_iff)
  qed
  have bwd: "\<exists>e. calc_loss self train_batch' i' = Inl e" if "\<exists>e. calc_loss self train_batch i = Inl e"
  proof (rule ccontr)
    assume "\<not> (\<exists>e. calc_loss self train_batch' i' = Inl e)"
    then obtain res where "calc_loss self train_batch' i' = Inr res"
      by (cases "calc_loss self train_batch' i'") auto
    moreover obtain l lpt runs where "res = (l, lpt, runs)" by (cases res)
    ultimately have "calc_loss self train_batch' i' = Inr (l, lpt, runs)" by simp
    from fwd [OF d' assms(2) [symmetric] this, of i]
    obtain runs' where "calc_loss self train_batch i = Inr (l, lpt, runs')" by blast
    with that show False by auto
  qed
  show ?thesis using fwd [OF assms] bwd by blast
qed


theorem calc_loss_permutation_invariant_witness:
  "distinct (map fst ex_batch)
   \<and> mset (rev ex_batch) = mset ex_batch
   \<and> rev ex_batch = [(''task_b'', Triple [[0, 2]] [[0, 3]] [[0, 2], [0, 3]]),
                      (''task_a'', Pair [[3, 2]] [[0]])]
   \<and> calc_loss ex_model ex_batch 0 =
        Inr (Num (8 / 5), [''task_a'' \<mapsto> Num 2, ''task_b'' \<mapsto> Num (3 / 2)],
             [([[3, 2]], 0), ([[0, 2]], 1), ([[0, 3]], 1), ([[0, 2], [0, 3]], 1)])
   \<and> (\<exists>runs'. calc_loss ex_model (rev ex_batch) 1 =
        Inr (Num (8 / 5), [''task_a'' \<mapsto> Num 2, ''task_b'' \<mapsto> Num (3 / 2)], runs'))"
proof -
  have d: "distinct (map fst ex_batch)" by (simp add: ex_batch_def)
  have m: "mset (rev ex_batch) = mset ex_batch" by simp
  have r: "rev ex_batch = [(''task_b'', Triple [[0, 2]] [[0, 3]] [[0, 2], [0, 3]]),
                      (''task_a'', Pair [[3, 2]] [[0]])]"
    by (simp add: ex_batch_def)
  have ev: "calc_loss ex_model ex_batch 0 =
        Inr (Num (8 / 5), [''task_a'' \<mapsto> Num 2, ''task_b'' \<mapsto> Num (3 / 2)],
             [([[3, 2]], 0), ([[0, 2]], 1), ([[0, 3]], 1), ([[0, 2], [0, 3]], 1)])"
    by (simp add: calc_loss_def calc_loss_task_def forward_def select_position_def py_index_def
        encoder_call_def torch_cat_def torch_mean_def mean_s_def ex_batch_def ex_defs)
  from calc_loss_permutation_invariant [OF d m, of ex_model 0 1] ev
  have "\<exists>runs'. calc_loss ex_model (rev ex_batch) 1 =
        Inr (Num (8 / 5), [''task_a'' \<mapsto> Num 2, ''task_b'' \<mapsto> Num (3 / 2)], runs')"
    by blast
  with d m r ev show ?thesis by blast
qed

subsection \<open>Classification heads\<close>

lemma dict_set_keys: "fst ` set (dict_set d k v) = insert k (fst ` set d)"
  by (induction d k v rule: dict_set.induct) auto

lemma head_items_foldl:
  "fst ` set (foldl (\<lambda>items t. case head t of None \<Rightarrow> items
                                   | Some h \<Rightarrow> dict_set items (TaskFamily.name t) h) d ts)
     = fst ` set d \<union> {TaskFamily.name t | t. t \<in> set ts \<and> head t \<noteq> None}"
proof (induction ts arbitrary: d)
  case Nil
  then show ?case by simp
next
  case (Cons t ts)
  show ?case
  proof (cases "head t")
    case None
    then show ?thesis using Cons.IH [of d] by auto
  next
    case (Some h)
    then show ?thesis using Cons.IH [of "dict_set d (TaskFamily.name t) h"]
      by (auto simp: dict_set_keys)
  qed
qed

lemma head_items_keys:
  "fst ` set (head_items td) = {TaskFamily.name t | t. t \<in> set (map snd td) \<and> head t \<noteq> None}"
  unfolding head_items_def head_items_foldl by simp

lemma init_weights_length: "init_weights f k ms = Inr ms' \<Longrightarrow> length ms' = length ms"
  by (induction ms arbitrary: k ms') (auto split: option.splits sum.splits)

lemma init_weights_total:
  "(\<exists>ms'. init_weights f k ms = Inr ms') \<longleftrightarrow> (\<forall>m \<in> set ms. linear m \<noteq> None)"
proof (induction ms arbitrary: k)
  case Nil
  then show ?case by simp
next
  case (Cons m ms)
  show ?case
  proof (cases "linear m")
    case None
    then show ?thesis by simp
  next
    case (Some l)
    then show ?thesis using Cons.IH [of "Suc k"] by (auto split: sum.splits)
  qed
qed

lemma build_heads_keys:
  assumes "build_heads env td = Inr items"
  shows "map fst items = map fst (head_items td)"
proof -
  from assms obtain ms where "init_weights (normal_draw env) 0 (map snd (head_items td)) = Inr ms"
    and items: "items = zip (map fst (head_items td)) ms"
    by (auto simp: build_heads_def make_heads_def split: sum.splits if_splits)
  then have "length ms = length (map fst (head_items td))"
    using init_weights_length by fastforce
  then show ?thesis unfolding items by simp
qed

lemma build_heads_total:
  assumes "\<forall>key \<in> fst ` set (head_items td). valid_module_name (module_attrs env) key"
    and "\<forall>h \<in> snd ` set (head_items td). linear h \<noteq> None"
  shows "\<exists>items. build_heads env td = Inr items"
proof -
  have v: "list_all (\<lambda>key. valid_module_name (module_attrs env) key) (map fst (head_items td))"
    using assms(1) by (simp add: list_all_iff)
  have "\<forall>m \<in> set (map snd (head_items td)). linear m \<noteq> None"
    using assms(2) by simp
  then obtain ms where "init_weights (normal_draw env) 0 (map snd (head_items td)) = Inr ms"
    using init_weights_total by blast
  with v show ?thesis by (simp add: build_heads_def make_heads_def)
qed

lemma init_fields:
  assumes "init env bs flag td' = Inr self"
  shows "\<exists>items. build_heads env (task_dict self) = Inr items \<and> heads self = map_of items"
    and "use_ctrl_tokens self = flag"
    and "task_dict self = resolve_task_dict env td'"
    and "batch_size self = bs"
    and "transformer (encoder self) = transformer (pretrained_encoder env)"
  using assms
  by (auto simp: init_def Let_def resize_token_embeddings_def
      split: if_splits prod.splits sum.splits)

lemma init_heads_None_iff:
  assumes "init env bs flag td' = Inr self"
  shows "heads self n = None \<longleftrightarrow>
           (\<forall>t \<in> set (map snd (task_dict self)). TaskFamily.name t = n \<longrightarrow> head t = None)"
proof -
  from init_fields(1) [OF assms] obtain items where
    b: "build_heads env (task_dict self) = Inr items" and h: "heads self = map_of items"
    by blast
  have "heads self n = None \<longleftrightarrow> n \<notin> fst ` set items"
    unfolding h by (simp add: map_of_eq_None_iff)
  also have "fst ` set items = fst ` set (head_items (task_dict self))"
    using build_heads_keys [OF b] by (metis set_map)
  also have "n \<notin> fst ` set (head_items (task_dict self)) \<longleftrightarrow>
      (\<forall>t \<in> set (map snd (task_dict self)). TaskFamily.name t = n \<longrightarrow> head t = None)"
    unfolding head_items_keys by auto
  finally show ?thesis .
qed

lemma keyed_by_name_head:
  assumes "distinct (map fst td)" and "\<forall>(k, t) \<in> set td. TaskFamily.name t = k"
    and "map_of td n = Some task"
  shows "(\<forall>t \<in> set (map snd td). TaskFamily.name t = n \<longrightarrow> head t = None) \<longleftrightarrow> head task = None"
proof
  assume a: "\<forall>t \<in> set (map snd td). TaskFamily.name t = n \<longrightarrow> head t = None"
  from assms(3) have m: "(n, task) \<in> set td" by (rule map_of_SomeD)
  with assms(2) have "TaskFamily.name task = n" by auto
  moreover from m have "task \<in> set (map snd td)" by force
  ultimately show "head task = None" using a by blast
next
  assume h: "head task = None"
  show "\<forall>t \<in> set (map snd td). TaskFamily.name t = n \<longrightarrow> head t = None"
  proof (intro ballI impI)
    fix t assume "t \<in> set (map snd td)" and nt: "TaskFamily.name t = n"
    then obtain k where kt: "(k, t) \<in> set td" by auto
    with assms(2) nt have "k = n" by auto
    with kt assms(1) have "map_of td n = Some t" by simp
    with assms(3) h show "head t = None" by simp
  qed
qed

lemma init_ex_model: "init ex_env 16 False None = Inr ex_model"
  by (simp add: init_def build_heads_def make_heads_def head_items_def valid_module_name_def
      resolve_task_dict_def ex_defs)

lemma init_ex_model_h: "init ex_env 16 False (Some ex_registry_h) = Inr ex_model_h"
  by (simp add: init_def build_heads_def make_heads_def head_items_def valid_module_name_def
      resolve_task_dict_def ex_model_h_def ex_registry_h_def ex_defs)

lemma calc_loss_task_headless:
  assumes "map_of (task_dict self) n = Some task" and "type task = ''classification''"
    and "heads self n = None"
  shows "\<exists>e. calc_loss_task self n payload = Inl e"
    and "forward self x (if truthy (ctrl_token task) then 1 else 0) = Inr (encoding, r)
           \<Longrightarrow> calc_loss_task self n (Pair x y) = Inl KeyError"
  using assms
  by (cases payload; auto simp: calc_loss_task_def Let_def split: sum.splits prod.splits)+

lemma forward_heads_update: "forward (self\<lparr>heads := hs\<rparr>) x i = forward self x i"
  by (simp add: forward_def)

lemma calc_loss_task_heads_irrelevant:
  assumes "map_of (task_dict self) n = Some task" and "type task \<noteq> ''classification''"
  shows "calc_loss_task (self\<lparr>heads := hs\<rparr>) n payload = calc_loss_task self n payload"
  using assms unfolding calc_loss_task_def forward_heads_update by (simp add: Let_def)

lemma calc_loss_heads_irrelevant:
  assumes "\<forall>(n, p) \<in> set b. \<exists>task. map_of (task_dict self) n = Some task
              \<and> type task \<noteq> ''classification''"
  shows "calc_loss (self\<lparr>heads := hs\<rparr>) b i = calc_loss self b i"
proof -
  have "map (\<lambda>(n, p). calc_loss_task (self\<lparr>heads := hs\<rparr>) n p) b =
        map (\<lambda>(n, p). calc_loss_task self n p) b"
    using assms by (auto simp: calc_loss_task_heads_irrelevant)
  then show ?thesis unfolding calc_loss_collect by (simp only:)
qed

text \<open>
  C4, as the claim states it, fails: a module built from a registry whose only task is
  a classification task without a head has an empty head set, and \<open>calc_loss\<close> on a
  batch of that task raises \<open>KeyError\<close> at the lookup of the head.
\<close>

theorem calc_loss_headless_classification_counterexample:
  "init ex_env 16 False (Some ex_registry_h) = Inr ex_model_h
   \<and> map_of (task_dict ex_model_h) ''task_h'' = Some task_h
   \<and> type task_h = ''classification''
   \<and> head task_h = None
   \<and> calc_loss ex_model_h [(''task_h'', Pair [[3, 2]] [[0]])] 0 = Inl KeyError"
proof -
  have "calc_loss ex_model_h [(''task_h'', Pair [[3, 2]] [[0]])] 0 = Inl KeyError"
    by (simp add: calc_loss_def calc_loss_task_def forward_def select_position_def
        py_index_def encoder_call_def ex_model_h_def ex_registry_h_def ex_defs)
  moreover have "map_of (task_dict ex_model_h) ''task_h'' = Some task_h"
    by (simp add: ex_model_h_def ex_registry_h_def)
  moreover have "type task_h = ''classification''" "head task_h = None"
    by (simp_all add: task_h_def)
  ultimately show ?thesis using init_ex_model_h by simp
qed

text \<open>
  C4, amended. For a task of type \<open>classification\<close>, \<open>calc_loss\<close> looks up the head set
  under the key that the batch gives the task and applies the head it finds to the
  encoding, without asking whether the task owns a head. When the head set holds
  nothing under that key, the task's step fails, with \<open>KeyError\<close> once the encoding
  succeeded, and so does \<open>calc_loss\<close> on every batch that holds the key. After
  construction the head set holds nothing under a key exactly when no registered task
  whose \<open>name\<close> attribute is that key has a head; for a registry that lists every task
  under its own name, that is exactly when the task owns no head. An empty head set is
  tolerated on batches without a task of type \<open>classification\<close>, which never read the
  heads.
\<close>

theorem calc_loss_head_lookup:
  assumes "map_of (task_dict self) n = Some task" and "type task = ''classification''"
  shows "(heads self n = None \<longrightarrow>
            (\<exists>e. calc_loss_task self n payload = Inl e)
          \<and> (\<forall>encoding r. forward self x (if truthy (ctrl_token task) then 1 else 0) = Inr (encoding, r)
                \<longrightarrow> calc_loss_task self n (Pair x y) = Inl KeyError)
          \<and> ((n, payload) \<in> set b \<longrightarrow> (\<exists>e. calc_loss self b i = Inl e)))
       \<and> (\<forall>h encoding r f. heads self n = Some h
              \<and> forward self x (if truthy (ctrl_token task) then 1 else 0) = Inr (encoding, r)
              \<and> loss task = Loss2 f \<and> \<not> multi_label task
              \<longrightarrow> calc_loss_task self n (Pair x y) = Inr (f (head_call h encoding) y, r))
       \<and> (\<forall>env bs flag td'. init env bs flag td' = Inr self \<longrightarrow>
             (heads self n = None \<longleftrightarrow>
                (\<forall>t \<in> set (map snd (task_dict self)). TaskFamily.name t = n \<longrightarrow> head t = None))
           \<and> (distinct (map fst (task_dict self))
                \<and> (\<forall>(k, t) \<in> set (task_dict self). TaskFamily.name t = k)
              \<longrightarrow> (heads self n = None \<longleftrightarrow> head task = None)))
       \<and> ((\<forall>(m, p) \<in> set b'. \<exists>t. map_of (task_dict self) m = Some t \<and> type t \<noteq> ''classification'')
              \<longrightarrow> calc_loss (self\<lparr>heads := Map.empty\<rparr>) b' i = calc_loss self b' i)"
proof (intro conjI impI allI)
  assume hd: "heads self n = None"
  show "\<exists>e. calc_loss_task self n payload = Inl e"
    using assms hd by (rule calc_loss_task_headless(1))
  then show "\<exists>e. calc_loss self b i = Inl e" if "(n, payload) \<in> set b"
    using that calc_loss_task_fails by blast
  show "calc_loss_task self n (Pair x y) = Inl KeyError"
    if "forward self x (if truthy (ctrl_token task) then 1 else 0) = Inr (encoding, r)"
    for encoding r
    using assms hd that by (rule calc_loss_task_headless(2))
next
  fix h encoding r f
  assume "heads self n = Some h
      \<and> forward self x (if truthy (ctrl_token task) then 1 else 0) = Inr (encoding, r)
      \<and> loss task = Loss2 f \<and> \<not> multi_label task"
  then show "calc_loss_task self n (Pair x y) = Inr (f (head_call h encoding) y, r)"
    by (simp add: calc_loss_task_classification [OF assms])
next
  fix env bs flag td'
  assume ini: "init env bs flag td' = Inr self"
  show iff: "heads self n = None \<longleftrightarrow>
      (\<forall>t \<in> set (map snd (task_dict self)). TaskFamily.name t = n \<longrightarrow> head t = None)"
    using ini by (rule init_heads_None_iff)
  assume "distinct (map fst (task_dict self))
      \<and> (\<forall>(k, t) \<in> set (task_dict self). TaskFamily.name t = k)"
  then show "heads self n = None \<longleftrightarrow> head task = None"
    using iff keyed_by_name_head [of "task_dict self" n task] assms(1) by blast
next
  assume "\<forall>(m, p) \<in> set b'. \<exists>t. map_of (task_dict self) m = Some t \<and> type t \<noteq> ''classification''"
  then show "calc_loss (self\<lparr>heads := Map.empty\<rparr>) b' i = calc_loss self b' i"
    by (rule calc_loss_heads_irrelevant)
qed

theorem calc_loss_head_lookup_witness:
  "map_of (task_dict ex_model) ''task_h'' = Some task_h
   \<and> type task_h = ''classification''
   \<and> init ex_env 16 False None = Inr ex_model
   \<and> distinct (map fst (task_dict ex_model))
   \<and> list_all (\<lambda>(k, t). TaskFamily.name t = k) (task_dict ex_model)
   \<and> head task_h = None
   \<and> heads ex_model ''task_h'' = None
   \<and> forward ex_model [[3, 2]] 0 = Inr ([[1, 1]], [([[3, 2]], 0)])
   \<and> calc_loss_task ex_model ''task_h'' (Pair [[3, 2]] [[0]]) = Inl KeyError
   \<and> (\<exists>e. calc_loss ex_model [(''task_a'', Pair [[2, 0]] [[1]]), (''task_h'', Pair [[3, 2]] [[0]])] 0 = Inl e)
   \<and> calc_loss (ex_model\<lparr>heads := Map.empty\<rparr>) [(''task_b'', Triple [[0, 2]] [[0, 3]] [[0, 2], [0, 3]])] 0 =
       calc_loss ex_model [(''task_b'', Triple [[0, 2]] [[0, 3]] [[0, 2], [0, 3]])] 0"
proof -
  have m: "map_of (task_dict ex_model) ''task_h'' = Some task_h"
    by (simp add: ex_model_def ex_registry_def)
  have ty: "type task_h = ''classification''" and hn: "head task_h = None"
    and ct: "\<not> truthy (ctrl_token task_h)"
    by (simp_all add: task_h_def)
  have d: "distinct (map fst (task_dict ex_model))"
    by (simp add: ex_model_def ex_registry_def)
  have kn: "list_all (\<lambda>(k, t). TaskFamily.name t = k) (task_dict ex_model)"
    by (simp add: ex_defs)
  then have kn': "\<forall>(k, t) \<in> set (task_dict ex_model). TaskFamily.name t = k"
    by (simp add: list_all_iff)
  have f: "forward ex_model [[3, 2]] 0 = Inr ([[1, 1]], [([[3, 2]], 0)])"
    by (simp add: forward_def select_position_def py_index_def encoder_call_def ex_defs)
  note ini = init_ex_model
  have mem: "(''task_h'', Pair [[3, 2]] [[0]]) \<in>
      set [(''task_a'', Pair [[2, 0]] [[1]]), (''task_h'', Pair [[3, 2]] [[0]])]" by simp
  have nc: "\<forall>(m, p) \<in> set [(''task_b'', Triple [[0, 2]] [[0, 3]] [[0, 2], [0, 3]])].
      \<exists>t. map_of (task_dict ex_model) m = Some t \<and> type t \<noteq> ''classification''"
    by (simp add: ex_model_def ex_registry_def task_b_def)
  note th = calc_loss_head_lookup [OF m ty, of "Pair [[3, 2]] [[0]]" "[[3, 2]]" "[[0]]"
      "[(''task_a'', Pair [[2, 0]] [[1]]), (''task_h'', Pair [[3, 2]] [[0]])]" 0
      "[(''task_b'', Triple [[0, 2]] [[0, 3]] [[0, 2], [0, 3]])]"]
  from th ini d kn' hn have hd: "heads ex_model ''task_h'' = None" by blast
  from th hd f ct have k: "calc_loss_task ex_model ''task_h'' (Pair [[3, 2]] [[0]]) = Inl KeyError"
    by simp
  from th hd mem have e: "\<exists>e. calc_loss ex_model
      [(''task_a'', Pair [[2, 0]] [[1]]), (''task_h'', Pair [[3, 2]] [[0]])] 0 = Inl e"
    by blast
  from th nc have ir: "calc_loss (ex_model\<lparr>heads := Map.empty\<rparr>)
       [(''task_b'', Triple [[0, 2]] [[0, 3]] [[0, 2], [0, 3]])] 0 =
       calc_loss ex_model [(''task_b'', Triple [[0, 2]] [[0, 3]] [[0, 2], [0, 3]])] 0"
    by blast
  show ?thesis using m ty ini d kn hn hd f k e ir by blast
qed

subsection \<open>The position read and the \<open>use_ctrl_tokens\<close> flag\<close>

lemma forward_flag_update: "forward (self\<lparr>use_ctrl_tokens := b\<rparr>) x i = forward self x i"
  by (simp add: forward_def)

lemma calc_loss_task_flag:
  "calc_loss_task (self\<lparr>use_ctrl_tokens := b\<rparr>) n payload = calc_loss_task self n payload"
proof -
  have "heads (self\<lparr>use_ctrl_tokens := b\<rparr>) = heads self"
    and "task_dict (self\<lparr>use_ctrl_tokens := b\<rparr>) = task_dict self"
    by simp_all
  then show ?thesis unfolding calc_loss_task_def forward_flag_update by (simp only:)
qed

lemma calc_loss_flag: "calc_loss (self\<lparr>use_ctrl_tokens := b\<rparr>) batch i = calc_loss self batch i"
  unfolding calc_loss_collect calc_loss_task_flag ..

lemma init_without_ctrl_tokens:
  "init env bs False td' =
     (case build_heads env (resolve_task_dict env td') of
        Inl e \<Rightarrow> Inl e
      | Inr items \<Rightarrow>
          Inr \<lparr>task_dict = resolve_task_dict env td', heads = map_of items,
               encoder = pretrained_encoder env, tokenizer = pretrained_tokenizer env,
               use_ctrl_tokens = False, batch_size = bs, lr = 1 / 10 ^ 6\<rparr>)"
  by (simp add: init_def Let_def split: sum.splits)

lemma load_data_without_ctrl_tokens:
  "\<not> use_ctrl_tokens self \<Longrightarrow> \<forall>ds \<in> set (load_data self split). ds_ctrl_token ds = None"
  by (auto simp: load_data_def Let_def)

text \<open>
  C10. \<open>calc_loss\<close> does not read the flag \<open>use_ctrl_tokens\<close>: changing it changes
  nothing of the result. Construction with the flag off (as the driver does) succeeds
  exactly when the heads can be built, and the module it yields keeps the pretrained
  tokenizer and encoder, hands no control token to any dataset, and still reads
  position 1 in every encoder run for a task that has a control token, these runs
  being the runs on the sequences of the payload.
\<close>

theorem calc_loss_index_ignores_use_ctrl_tokens:
  "(\<forall>b. calc_loss (self\<lparr>use_ctrl_tokens := b\<rparr>) batch i = calc_loss self batch i)
   \<and> ((\<exists>m. init env bs False td' = Inr m)
        \<longleftrightarrow> (\<exists>items. build_heads env (resolve_task_dict env td') = Inr items))
   \<and> (\<forall>m. init env bs False td' = Inr m \<longrightarrow>
         \<not> use_ctrl_tokens m
         \<and> tokenizer m = pretrained_tokenizer env \<and> encoder m = pretrained_encoder env
         \<and> (\<forall>ds \<in> set (load_data m split). ds_ctrl_token ds = None)
         \<and> (\<forall>n task payload t runs.
               map_of (task_dict m) n = Some task \<and> truthy (ctrl_token task)
               \<and> calc_loss_task m n payload = Inr (t, runs)
               \<longrightarrow> runs \<noteq> [] \<and> (\<forall>r \<in> set runs. snd r = 1)
                 \<and> (case payload of
                       Triple q p ng \<Rightarrow> runs = [(q, 1), (p, 1), (ng, 1)]
                     | Pair x y \<Rightarrow> runs = [(x, 1)])))"
proof (intro conjI allI impI)
  fix b show "calc_loss (self\<lparr>use_ctrl_tokens := b\<rparr>) batch i = calc_loss self batch i"
    by (rule calc_loss_flag)
next
  show "(\<exists>m. init env bs False td' = Inr m)
        \<longleftrightarrow> (\<exists>items. build_heads env (resolve_task_dict env td') = Inr items)"
    unfolding init_without_ctrl_tokens
    by (cases "build_heads env (resolve_task_dict env td')") auto
next
  fix m assume ini: "init env bs False td' = Inr m"
  then have fields: "\<not> use_ctrl_tokens m \<and> tokenizer m = pretrained_tokenizer env
      \<and> encoder m = pretrained_encoder env"
    unfolding init_without_ctrl_tokens by (auto split: sum.splits)
  from fields show "\<not> use_ctrl_tokens m" by blast
  from fields show "tokenizer m = pretrained_tokenizer env" by blast
  from fields show "encoder m = pretrained_encoder env" by blast
  from fields show "\<forall>ds \<in> set (load_data m split). ds_ctrl_token ds = None"
    using load_data_without_ctrl_tokens by blast
  fix n task payload t runs
  assume a: "map_of (task_dict m) n = Some task \<and> truthy (ctrl_token task)
               \<and> calc_loss_task m n payload = Inr (t, runs)"
  then have m1: "map_of (task_dict m) n = Some task" and tr: "truthy (ctrl_token task)"
    and c: "calc_loss_task m n payload = Inr (t, runs)" by blast+
  from calc_loss_task_runs [OF m1 c] tr show "runs \<noteq> []" by simp
  from calc_loss_task_runs [OF m1 c] tr show "\<forall>r \<in> set runs. snd r = 1" by simp
  from calc_loss_task_runs_payload [OF m1 c] tr
  show "(case payload of
           Triple q p ng \<Rightarrow> runs = [(q, 1), (p, 1), (ng, 1)]
         | Pair x y \<Rightarrow> runs = [(x, 1)])"
    by (cases payload) simp_all
qed

theorem calc_loss_index_ignores_use_ctrl_tokens_witness:
  "init ex_env 16 False None = Inr ex_model
   \<and> tokenizer ex_model = ex_tokenizer
   \<and> encoder ex_model = ex_encoder
   \<and> map ds_ctrl_token (load_data ex_model ''train'') = [None, None, None, None, None, None]
   \<and> map_of (task_dict ex_model) ''task_b'' = Some task_b
   \<and> ctrl_token task_b = Some ''[B]''
   \<and> calc_loss_task ex_model ''task_b'' (Triple [[0, 2]] [[0, 3]] [[0, 2], [0, 3]]) =
       Inr (T1 [Num 1, Num 2, Num 1, Num 2],
            [([[0, 2]], 1), ([[0, 3]], 1), ([[0, 2], [0, 3]], 1)])
   \<and> calc_loss (ex_model\<lparr>use_ctrl_tokens := True\<rparr>)
         [(''task_b'', Triple [[0, 2]] [[0, 3]] [[0, 2], [0, 3]])] 0 =
       calc_loss ex_model [(''task_b'', Triple [[0, 2]] [[0, 3]] [[0, 2], [0, 3]])] 0"
proof -
  note ini = init_ex_model
  have tok: "tokenizer ex_model = ex_tokenizer" and enc: "encoder ex_model = ex_encoder"
    by (simp_all add: ex_model_def)
  have ld: "map ds_ctrl_token (load_data ex_model ''train'') = [None, None, None, None, None, None]"
    by (simp add: load_data_def ex_model_def ex_registry_def)
  have mb: "map_of (task_dict ex_model) ''task_b'' = Some task_b"
    by (simp add: ex_model_def ex_registry_def)
  have cb: "ctrl_token task_b = Some ''[B]''" by (simp add: task_b_def)
  have b: "calc_loss_task ex_model ''task_b'' (Triple [[0, 2]] [[0, 3]] [[0, 2], [0, 3]]) =
       Inr (T1 [Num 1, Num 2, Num 1, Num 2],
            [([[0, 2]], 1), ([[0, 3]], 1), ([[0, 2], [0, 3]], 1)])"
    by (simp add: calc_loss_task_def forward_def select_position_def py_index_def
        encoder_call_def ex_defs)
  from calc_loss_index_ignores_use_ctrl_tokens
    [of ex_model "[(''task_b'', Triple [[0, 2]] [[0, 3]] [[0, 2], [0, 3]])]" 0 ex_env 16 None "''train''"]
  have "calc_loss (ex_model\<lparr>use_ctrl_tokens := True\<rparr>)
         [(''task_b'', Triple [[0, 2]] [[0, 3]] [[0, 2], [0, 3]])] 0 =
       calc_loss ex_model [(''task_b'', Triple [[0, 2]] [[0, 3]] [[0, 2], [0, 3]])] 0"
    by blast
  with ini tok enc ld mb cb b show ?thesis by blast
qed

subsection \<open>Extension of the vocabulary by control tokens\<close>

lemma add_tokens_prefix:
  "\<exists>new. add_tokens v ts = v @ new \<and> set new \<subseteq> set ts \<and> set new \<inter> set v = {} \<and> distinct new"
proof (induction ts arbitrary: v)
  case Nil
  then show ?case by simp
next
  case (Cons t ts)
  show ?case
  proof (cases "t \<in> set v")
    case True
    with Cons.IH [of v] show ?thesis by auto
  next
    case False
    from Cons.IH [of "v @ [t]"] obtain new where
      n: "add_tokens (v @ [t]) ts = (v @ [t]) @ new" "set new \<subseteq> set ts"
         "set new \<inter> set (v @ [t]) = {}" "distinct new" by blast
    have "add_tokens v (t # ts) = v @ (t # new)" using False n(1) by simp
    moreover have "set (t # new) \<subseteq> set (t # ts)" using n(2) by auto
    moreover have "set (t # new) \<inter> set v = {}" using n(3) False by auto
    moreover have "distinct (t # new)" using n(3,4) by auto
    ultimately show ?thesis by blast
  qed
qed

lemma add_tokens_superset: "set v \<union> set ts \<subseteq> set (add_tokens v ts)"
proof (induction ts arbitrary: v)
  case Nil
  then show ?case by simp
next
  case (Cons t ts)
  show ?case using Cons.IH [of "if t \<in> set v then v else v @ [t]"] by (auto split: if_splits)
qed

lemma add_tokens_length: "length v \<le> length (add_tokens v ts)"
  using add_tokens_prefix [of v ts] by auto

lemma resize_token_embeddings_rows:
  "length (word_embeddings (resize_token_embeddings f e n)) = n"
  "i < n \<Longrightarrow> i < length (word_embeddings e) \<Longrightarrow>
     word_embeddings (resize_token_embeddings f e n) ! i = word_embeddings e ! i"
  "transformer (resize_token_embeddings f e n) = transformer e"
  by (auto simp: resize_token_embeddings_def nth_append)

lemma assign_last_rows_Inr:
  assumes "assign_last_rows w k i = Inr w'" and "k \<le> length w"
  shows "length w' = length w"
    and "length w - k \<le> j \<Longrightarrow> j < length w \<Longrightarrow> w' ! j = w ! i"
    and "j < length w - k \<Longrightarrow> w' ! j = w ! j"
    and "i < length w"
  using assms by (auto simp: assign_last_rows_def nth_append split: if_splits)

lemma assign_last_rows_total:
  "i < length w \<Longrightarrow> \<exists>w'. assign_last_rows w k i = Inr w'"
  by (simp add: assign_last_rows_def)

lemma init_build_fails:
  "build_heads env (resolve_task_dict env td') = Inl e \<Longrightarrow> init env bs flag td' = Inl e"
  by (simp add: init_def Let_def)

lemma init_unfold:
  assumes "build_heads env (resolve_task_dict env td') = Inr items"
  shows "init env bs flag td' =
     (let td = resolve_task_dict env td';
          old = pretrained_tokenizer env;
          toks = py_list env (spl_ctrl_tokens td);
          v = add_tokens (vocab old) toks;
          tok = old\<lparr>vocab := v, additional_special_tokens := toks\<rparr>;
          base = \<lparr>task_dict = td, heads = map_of items, encoder = pretrained_encoder env,
                  tokenizer = old, use_ctrl_tokens = flag, batch_size = bs, lr = 1 / 10 ^ 6\<rparr>
      in if flag \<and> spl_ctrl_tokens td \<noteq> {} then
           (if length v \<noteq> length (vocab old) then
              (case assign_last_rows
                      (word_embeddings (resize_token_embeddings (new_row env) (pretrained_encoder env) (length v)))
                      (length v - length (vocab old)) (cls_token_id old) of
                 Inl e \<Rightarrow> Inl e
               | Inr w \<Rightarrow>
                   Inr (base\<lparr>encoder := (resize_token_embeddings (new_row env) (pretrained_encoder env) (length v))
                                           \<lparr>word_embeddings := w\<rparr>,
                             tokenizer := tok\<rparr>))
            else Inr (base\<lparr>tokenizer := tok\<rparr>))
         else Inr base)"
  using add_tokens_length [of "vocab (pretrained_tokenizer env)"
      "py_list env (spl_ctrl_tokens (resolve_task_dict env td'))"] assms
  by (auto simp: init_def Let_def add_special_tokens_def tokenizer_len_def)

text \<open>
  C3. With conditioning on (\<open>use_ctrl_tokens\<close>) the control tokens that the registry
  requires are the non-empty control tokens of its tasks, as a set, which Python lists
  in an order of its own; with conditioning off there are none, and the set is not
  even built. When the set is built and not empty, its tokens become the additional
  special tokens (the assumption says that the listing holds the elements of the set)
  and those the vocabulary lacks are appended to it, once each; their number is the count
  that \<open>add_special_tokens\<close> returns. If that count is zero the encoder is left as it
  is, and this is no error: construction succeeds as soon as the heads can be built.
  If it is positive, the embedding matrix gets as many rows as the tokenizer has
  tokens, every row of a newly added id equals the row of the cls token, and the rows
  of the old ids are kept; this succeeds when the cls token id is an id of the
  vocabulary. In every other case tokenizer and encoder are the pretrained ones.
\<close>

theorem init_control_token_extension:
  assumes "set (py_list env (spl_ctrl_tokens (resolve_task_dict env td')))
             = spl_ctrl_tokens (resolve_task_dict env td')"
  shows "((\<exists>items. build_heads env (resolve_task_dict env td') = Inr items)
          \<and> cls_token_id (pretrained_tokenizer env) < length (vocab (pretrained_tokenizer env))
        \<longrightarrow> (\<exists>self. init env bs flag td' = Inr self))
   \<and> ((\<exists>items. build_heads env (resolve_task_dict env td') = Inr items)
          \<and> spl_ctrl_tokens (resolve_task_dict env td') \<subseteq> set (vocab (pretrained_tokenizer env))
        \<longrightarrow> (\<exists>self. init env bs flag td' = Inr self))
   \<and> (\<forall>self. init env bs flag td' = Inr self \<longrightarrow>
        task_dict self = resolve_task_dict env td'
      \<and> (flag \<and> spl_ctrl_tokens (task_dict self) \<noteq> {} \<longrightarrow>
          (\<exists>new. vocab (tokenizer self) = vocab (pretrained_tokenizer env) @ new
              \<and> distinct new
              \<and> set new = spl_ctrl_tokens (task_dict self) - set (vocab (pretrained_tokenizer env))
              \<and> spl_ctrl_tokens (task_dict self) \<subseteq> set (vocab (tokenizer self))
              \<and> fst (add_special_tokens (pretrained_tokenizer env)
                        (py_list env (spl_ctrl_tokens (task_dict self)))) = length new
              \<and> set (additional_special_tokens (tokenizer self)) = spl_ctrl_tokens (task_dict self)
              \<and> cls_token_id (tokenizer self) = cls_token_id (pretrained_tokenizer env)
              \<and> (new = [] \<longrightarrow> encoder self = pretrained_encoder env)
              \<and> (new \<noteq> [] \<longrightarrow>
                   length (word_embeddings (encoder self)) = tokenizer_len (tokenizer self)
                 \<and> (\<forall>i. length (vocab (pretrained_tokenizer env)) \<le> i \<and> i < tokenizer_len (tokenizer self)
                       \<longrightarrow> word_embeddings (encoder self) ! i =
                             word_embeddings (encoder self) ! cls_token_id (tokenizer self))
                 \<and> (\<forall>i. i < length (vocab (pretrained_tokenizer env))
                         \<and> i < length (word_embeddings (pretrained_encoder env))
                       \<longrightarrow> word_embeddings (encoder self) ! i =
                             word_embeddings (pretrained_encoder env) ! i)
                 \<and> transformer (encoder self) = transformer (pretrained_encoder env))))
      \<and> (\<not> (flag \<and> spl_ctrl_tokens (task_dict self) \<noteq> {}) \<longrightarrow>
           tokenizer self = pretrained_tokenizer env \<and> encoder self = pretrained_encoder env))"
proof -
  define td where "td = resolve_task_dict env td'"
  define old where "old = pretrained_tokenizer env"
  define toks where "toks = py_list env (spl_ctrl_tokens td)"
  define v where "v = add_tokens (vocab old) toks"
  define tok where "tok = old\<lparr>vocab := v, additional_special_tokens := toks\<rparr>"
  define e1 where "e1 = resize_token_embeddings (new_row env) (pretrained_encoder env) (length v)"
  define k where "k = length v - length (vocab old)"
  have stoks: "set toks = spl_ctrl_tokens td"
    unfolding toks_def td_def by (rule assms)
  obtain new where new: "v = vocab old @ new" "set new \<subseteq> set toks"
      "set new \<inter> set (vocab old) = {}" "distinct new"
    unfolding v_def using add_tokens_prefix by blast
  have sup: "set toks \<subseteq> set v"
    unfolding v_def using add_tokens_superset by blast
  have setnew: "set new = spl_ctrl_tokens td - set (vocab old)"
    using new sup stoks by auto
  have k: "k = length new" "k \<le> length v" by (simp_all add: k_def new(1))
  have cnt: "fst (add_special_tokens old toks) = length new"
    by (simp add: add_special_tokens_def Let_def v_def [symmetric] new(1))
  have len1: "length (word_embeddings e1) = length v"
    unfolding e1_def by (rule resize_token_embeddings_rows(1))
  have unf: "init env bs flag td' =
     (if flag \<and> spl_ctrl_tokens td \<noteq> {} then
        (if length v \<noteq> length (vocab old) then
           (case assign_last_rows (word_embeddings e1) k (cls_token_id old) of
              Inl e \<Rightarrow> Inl e
            | Inr w \<Rightarrow>
                Inr (\<lparr>task_dict = td, heads = map_of items, encoder = pretrained_encoder env,
                       tokenizer = old, use_ctrl_tokens = flag, batch_size = bs, lr = 1 / 10 ^ 6\<rparr>
                     \<lparr>encoder := e1\<lparr>word_embeddings := w\<rparr>, tokenizer := tok\<rparr>))
         else Inr (\<lparr>task_dict = td, heads = map_of items, encoder = pretrained_encoder env,
                       tokenizer = old, use_ctrl_tokens = flag, batch_size = bs, lr = 1 / 10 ^ 6\<rparr>
                   \<lparr>tokenizer := tok\<rparr>))
      else Inr \<lparr>task_dict = td, heads = map_of items, encoder = pretrained_encoder env,
                       tokenizer = old, use_ctrl_tokens = flag, batch_size = bs, lr = 1 / 10 ^ 6\<rparr>)"
    if "build_heads env td = Inr items" for items
    using init_unfold [OF that [unfolded td_def], of bs flag]
    unfolding Let_def td_def old_def toks_def v_def tok_def e1_def k_def .
  have total1: "\<exists>self. init env bs flag td' = Inr self"
    if b: "build_heads env td = Inr items" and cls: "cls_token_id old < length (vocab old)" for items
  proof -
    have "cls_token_id old < length (word_embeddings e1)"
      using cls len1 new(1) by simp
    then obtain w where "assign_last_rows (word_embeddings e1) k (cls_token_id old) = Inr w"
      using assign_last_rows_total by blast
    then show ?thesis unfolding unf [OF b] by simp
  qed
  have total2: "\<exists>self. init env bs flag td' = Inr self"
    if b: "build_heads env td = Inr items" and sub: "spl_ctrl_tokens td \<subseteq> set (vocab old)" for items
  proof -
    have "set new = {}" unfolding setnew using sub by simp
    then have "new = []" by simp
    then have "length v = length (vocab old)" using new(1) by simp
    then show ?thesis unfolding unf [OF b] by simp
  qed
  have props: "task_dict self = td
      \<and> (flag \<and> spl_ctrl_tokens td \<noteq> {} \<longrightarrow>
          (vocab (tokenizer self) = vocab old @ new
              \<and> additional_special_tokens (tokenizer self) = toks
              \<and> cls_token_id (tokenizer self) = cls_token_id old
              \<and> (new = [] \<longrightarrow> encoder self = pretrained_encoder env)
              \<and> (new \<noteq> [] \<longrightarrow>
                   length (word_embeddings (encoder self)) = tokenizer_len (tokenizer self)
                 \<and> (\<forall>i. length (vocab old) \<le> i \<and> i < tokenizer_len (tokenizer self)
                       \<longrightarrow> word_embeddings (encoder self) ! i =
                             word_embeddings (encoder self) ! cls_token_id (tokenizer self))
                 \<and> (\<forall>i. i < length (vocab old)
                         \<and> i < length (word_embeddings (pretrained_encoder env))
                       \<longrightarrow> word_embeddings (encoder self) ! i =
                             word_embeddings (pretrained_encoder env) ! i)
                 \<and> transformer (encoder self) = transformer (pretrained_encoder env))))
      \<and> (\<not> (flag \<and> spl_ctrl_tokens td \<noteq> {}) \<longrightarrow>
           tokenizer self = old \<and> encoder self = pretrained_encoder env)"
    if ini: "init env bs flag td' = Inr self" for self
  proof -
    obtain items where b: "build_heads env td = Inr items"
    proof (cases "build_heads env td")
      case (Inl e)
      then have "init env bs flag td' = Inl e" unfolding td_def by (rule init_build_fails)
      with ini show ?thesis by simp
    next
      case (Inr items)
      then show ?thesis by (rule that)
    qed
    note u = unf [OF b]
    show ?thesis
    proof (cases "flag \<and> spl_ctrl_tokens td \<noteq> {}")
      case False
      with ini u have "self = \<lparr>task_dict = td, heads = map_of items,
          encoder = pretrained_encoder env, tokenizer = old, use_ctrl_tokens = flag,
          batch_size = bs, lr = 1 / 10 ^ 6\<rparr>" by auto
      with False show ?thesis by auto
    next
      case ext: True
      show ?thesis
      proof (cases "new = []")
        case True
        with ini u ext new(1) have "self = \<lparr>task_dict = td, heads = map_of items,
            encoder = pretrained_encoder env, tokenizer = old, use_ctrl_tokens = flag,
            batch_size = bs, lr = 1 / 10 ^ 6\<rparr>\<lparr>tokenizer := tok\<rparr>" by auto
        with ext True new(1) show ?thesis by (simp add: tok_def)
      next
        case False
        then have ne: "length v \<noteq> length (vocab old)" using new(1) by simp
        from ini u ext ne obtain w where
          w: "assign_last_rows (word_embeddings e1) k (cls_token_id old) = Inr w"
          and self: "self = \<lparr>task_dict = td, heads = map_of items,
            encoder = pretrained_encoder env, tokenizer = old, use_ctrl_tokens = flag,
            batch_size = bs, lr = 1 / 10 ^ 6\<rparr>\<lparr>encoder := e1\<lparr>word_embeddings := w\<rparr>, tokenizer := tok\<rparr>"
          by (auto split: sum.splits)
        have kl: "k \<le> length (word_embeddings e1)" using k(2) len1 by simp
        note a = assign_last_rows_Inr [OF w kl]
        have lw: "length w = length v" using a(1) len1 by simp
        have wcls: "w ! cls_token_id old = word_embeddings e1 ! cls_token_id old"
        proof (cases "cls_token_id old < length (word_embeddings e1) - k")
          case True
          then show ?thesis by (rule a(3))
        next
          case False
          then have "length (word_embeddings e1) - k \<le> cls_token_id old" by simp
          then show ?thesis using a(4) by (rule a(2))
        qed
        have lo: "length (word_embeddings e1) - k = length (vocab old)"
          using len1 k(1) new(1) by simp
        have newrows: "w ! i = w ! cls_token_id old"
          if "length (vocab old) \<le> i" "i < length v" for i
        proof -
          have "w ! i = word_embeddings e1 ! cls_token_id old"
            using that lo len1 a(2) [of i] by simp
          then show ?thesis using wcls by simp
        qed
        have oldrows: "w ! i = word_embeddings (pretrained_encoder env) ! i"
          if "i < length (vocab old)" "i < length (word_embeddings (pretrained_encoder env))" for i
        proof -
          have "w ! i = word_embeddings e1 ! i" using that(1) lo a(3) [of i] by simp
          moreover have "i < length v" using that(1) new(1) by simp
          then have "word_embeddings e1 ! i = word_embeddings (pretrained_encoder env) ! i"
            unfolding e1_def using that(2) by (rule resize_token_embeddings_rows(2))
          ultimately show ?thesis by simp
        qed
        have tr: "transformer e1 = transformer (pretrained_encoder env)"
          unfolding e1_def by (rule resize_token_embeddings_rows(3))
        show ?thesis
          using ext False new(1) lw newrows oldrows tr
          by (simp add: self tok_def tokenizer_len_def)
      qed
    qed
  qed
  show ?thesis
  proof (intro conjI allI impI)
    assume "(\<exists>items. build_heads env (resolve_task_dict env td') = Inr items)
        \<and> cls_token_id (pretrained_tokenizer env) < length (vocab (pretrained_tokenizer env))"
    then show "\<exists>self. init env bs flag td' = Inr self"
      using total1 unfolding td_def old_def by blast
  next
    assume "(\<exists>items. build_heads env (resolve_task_dict env td') = Inr items)
        \<and> spl_ctrl_tokens (resolve_task_dict env td') \<subseteq> set (vocab (pretrained_tokenizer env))"
    then show "\<exists>self. init env bs flag td' = Inr self"
      using total2 unfolding td_def old_def by blast
  next
    fix self assume ini: "init env bs flag td' = Inr self"
    note p = props [OF ini]
    from p show "task_dict self = resolve_task_dict env td'" by (simp add: td_def)
    from p have tds: "task_dict self = td" by simp
    {
      assume "flag \<and> spl_ctrl_tokens (task_dict self) \<noteq> {}"
      then have ext: "flag \<and> spl_ctrl_tokens td \<noteq> {}" using tds by simp
      have "vocab (tokenizer self) = vocab (pretrained_tokenizer env) @ new
              \<and> distinct new
              \<and> set new = spl_ctrl_tokens (task_dict self) - set (vocab (pretrained_tokenizer env))
              \<and> spl_ctrl_tokens (task_dict self) \<subseteq> set (vocab (tokenizer self))
              \<and> fst (add_special_tokens (pretrained_tokenizer env)
                        (py_list env (spl_ctrl_tokens (task_dict self)))) = length new
              \<and> set (additional_special_tokens (tokenizer self)) = spl_ctrl_tokens (task_dict self)
              \<and> cls_token_id (tokenizer self) = cls_token_id (pretrained_tokenizer env)
              \<and> (new = [] \<longrightarrow> encoder self = pretrained_encoder env)
              \<and> (new \<noteq> [] \<longrightarrow>
                   length (word_embeddings (encoder self)) = tokenizer_len (tokenizer self)
                 \<and> (\<forall>i. length (vocab (pretrained_tokenizer env)) \<le> i \<and> i < tokenizer_len (tokenizer self)
                       \<longrightarrow> word_embeddings (encoder self) ! i =
                             word_embeddings (encoder self) ! cls_token_id (tokenizer self))
                 \<and> (\<forall>i. i < length (vocab (pretrained_tokenizer env))
                         \<and> i < length (word_embeddings (pretrained_encoder env))
                       \<longrightarrow> word_embeddings (encoder self) ! i =
                             word_embeddings (pretrained_encoder env) ! i)
                 \<and> transformer (encoder self) = transformer (pretrained_encoder env))"
        using p ext setnew sup stoks cnt new(1,4)
        unfolding tds old_def [symmetric] toks_def [symmetric] by simp
      then show "\<exists>new. vocab (tokenizer self) = vocab (pretrained_tokenizer env) @ new
              \<and> distinct new
              \<and> set new = spl_ctrl_tokens (task_dict self) - set (vocab (pretrained_tokenizer env))
              \<and> spl_ctrl_tokens (task_dict self) \<subseteq> set (vocab (tokenizer self))
              \<and> fst (add_special_tokens (pretrained_tokenizer env)
                        (py_list env (spl_ctrl_tokens (task_dict self)))) = length new
              \<and> set (additional_special_tokens (tokenizer self)) = spl_ctrl_tokens (task_dict self)
              \<and> cls_token_id (tokenizer self) = cls_token_id (pretrained_tokenizer env)
              \<and> (new = [] \<longrightarrow> encoder self = pretrained_encoder env)
              \<and> (new \<noteq> [] \<longrightarrow>
                   length (word_embeddings (encoder self)) = tokenizer_len (tokenizer self)
                 \<and> (\<forall>i. length (vocab (pretrained_tokenizer env)) \<le> i \<and> i < tokenizer_len (tokenizer self)
                       \<longrightarrow> word_embeddings (encoder self) ! i =
                             word_embeddings (encoder self) ! cls_token_id (tokenizer self))
                 \<and> (\<forall>i. i < length (vocab (pretrained_tokenizer env))
                         \<and> i < length (word_embeddings (pretrained_encoder env))
                       \<longrightarrow> word_embeddings (encoder self) ! i =
                             word_embeddings (pretrained_encoder env) ! i)
                 \<and> transformer (encoder self) = transformer (pretrained_encoder env))"
        by (rule exI)
    }
    {
      assume "\<not> (flag \<and> spl_ctrl_tokens (task_dict self) \<noteq> {})"
      then have "\<not> (flag \<and> spl_ctrl_tokens td \<noteq> {})" using tds by simp
      with p show "tokenizer self = pretrained_tokenizer env" "encoder self = pretrained_encoder env"
        by (simp_all add: old_def)
    }
  qed
qed

theorem init_control_token_extension_witness:
  "spl_ctrl_tokens (resolve_task_dict ex_env None) = {''[B]''}
   \<and> set (py_list ex_env (spl_ctrl_tokens (resolve_task_dict ex_env None)))
        = spl_ctrl_tokens (resolve_task_dict ex_env None)
   \<and> cls_token_id (pretrained_tokenizer ex_env) < length (vocab (pretrained_tokenizer ex_env))
   \<and> (\<exists>items. build_heads ex_env (resolve_task_dict ex_env None) = Inr items)
   \<and> (\<exists>self. init ex_env 16 True None = Inr self
         \<and> vocab (tokenizer self) = [''[PAD]'', ''[CLS]'', ''x'', ''y'', ''[B]'']
         \<and> additional_special_tokens (tokenizer self) = [''[B]'']
         \<and> word_embeddings (encoder self) = [[0, 0], [1, 0], [0, 1], [1, 1], [1, 0]])
   \<and> init ex_env 16 False None = Inr ex_model
   \<and> vocab (tokenizer ex_model) = [''[PAD]'', ''[CLS]'', ''x'', ''y'']
   \<and> word_embeddings (encoder ex_model) = [[0, 0], [1, 0], [0, 1], [1, 1]]"
proof -
  have spl: "spl_ctrl_tokens (resolve_task_dict ex_env None) = {''[B]''}"
    by (simp add: resolve_task_dict_def spl_ctrl_tokens_def ex_defs)
  have lst: "set (py_list ex_env (spl_ctrl_tokens (resolve_task_dict ex_env None)))
        = spl_ctrl_tokens (resolve_task_dict ex_env None)"
    unfolding spl by (simp add: ex_env_def)
  have cls: "cls_token_id (pretrained_tokenizer ex_env) < length (vocab (pretrained_tokenizer ex_env))"
    by (simp add: ex_env_def ex_tokenizer_def)
  have bh: "\<exists>items. build_heads ex_env (resolve_task_dict ex_env None) = Inr items"
    by (simp add: build_heads_def make_heads_def head_items_def valid_module_name_def
        resolve_task_dict_def ex_defs)
  from init_control_token_extension [OF lst, of 16 True] bh cls
  obtain self where s: "init ex_env 16 True None = Inr self" by blast
  have ev: "\<exists>m. init ex_env 16 True None = Inr m
         \<and> vocab (tokenizer m) = [''[PAD]'', ''[CLS]'', ''x'', ''y'', ''[B]'']
         \<and> additional_special_tokens (tokenizer m) = [''[B]'']
         \<and> word_embeddings (encoder m) = [[0, 0], [1, 0], [0, 1], [1, 1], [1, 0]]"
    by (simp add: init_def build_heads_def make_heads_def head_items_def valid_module_name_def
        resolve_task_dict_def spl_ctrl_tokens_def add_special_tokens_def
        tokenizer_len_def resize_token_embeddings_def assign_last_rows_def ex_defs)
  with s have "vocab (tokenizer self) = [''[PAD]'', ''[CLS]'', ''x'', ''y'', ''[B]'']
         \<and> additional_special_tokens (tokenizer self) = [''[B]'']
         \<and> word_embeddings (encoder self) = [[0, 0], [1, 0], [0, 1], [1, 1], [1, 0]]"
    by auto
  moreover have "vocab (tokenizer ex_model) = [''[PAD]'', ''[CLS]'', ''x'', ''y'']"
    "word_embeddings (encoder ex_model) = [[0, 0], [1, 0], [0, 1], [1, 1]]"
    by (simp_all add: ex_defs)
  ultimately show ?thesis using s cls spl lst bh init_ex_model by blast
qed

subsection \<open>The optimizer's parameter groups\<close>

text \<open>
  C7. \<open>configure_optimizers\<close> builds exactly two parameter groups. The second holds the
  parameters whose name contains \<open>bias\<close> or \<open>LayerNorm.weight\<close> as a substring, the first
  the others; together they hold every named parameter exactly once, so that when the
  parameters are distinct no parameter is in both groups; both groups have weight
  decay \<open>0.0\<close>.
\<close>

theorem configure_optimizers_partition:
  "\<exists>g1 g2. param_groups (configure_optimizers self nps) = [g1, g2]
     \<and> weight_decay g1 = 0 \<and> weight_decay g2 = 0
     \<and> mset (params g1) + mset (params g2) = mset (map snd nps)
     \<and> set (params g1) = {p. \<exists>n. (n, p) \<in> set nps
           \<and> \<not> (sublist ''bias'' n \<or> sublist ''LayerNorm.weight'' n)}
     \<and> set (params g2) = {p. \<exists>n. (n, p) \<in> set nps
           \<and> (sublist ''bias'' n \<or> sublist ''LayerNorm.weight'' n)}
     \<and> (distinct (map snd nps) \<longrightarrow> set (params g1) \<inter> set (params g2) = {})"
proof -
  let ?P = "\<lambda>n. list_ex (\<lambda>nd. str_in nd n) no_decay"
  let ?l1 = "[p. (n, p) \<leftarrow> nps, \<not> ?P n]"
  let ?l2 = "[p. (n, p) \<leftarrow> nps, ?P n]"
  have P: "?P n \<longleftrightarrow> sublist ''bias'' n \<or> sublist ''LayerNorm.weight'' n" for n
    by (simp add: no_decay_def str_in_sublist)
  have groups: "param_groups (configure_optimizers self nps) =
      [\<lparr>params = ?l1, weight_decay = 0\<rparr>, \<lparr>params = ?l2, weight_decay = 0\<rparr>]"
    by (simp add: configure_optimizers_def optimizer_grouped_parameters_def)
  have total: "mset ?l1 + mset ?l2 = mset (map snd nps)"
    by (rule filter_split_mset)
  have s1: "set ?l1 = {p. \<exists>n. (n, p) \<in> set nps
      \<and> \<not> (sublist ''bias'' n \<or> sublist ''LayerNorm.weight'' n)}"
    unfolding matching_params_set P ..
  have s2: "set ?l2 = {p. \<exists>n. (n, p) \<in> set nps
      \<and> (sublist ''bias'' n \<or> sublist ''LayerNorm.weight'' n)}"
    unfolding matching_params_set P ..
  have disj: "set ?l1 \<inter> set ?l2 = {}" if d: "distinct (map snd nps)"
  proof -
    have "mset (?l1 @ ?l2) = mset (map snd nps)"
      using total by simp
    with d have "distinct (?l1 @ ?l2)"
      by (metis mset_eq_imp_distinct_iff)
    then show ?thesis by simp
  qed
  show ?thesis
    unfolding groups
    apply (intro exI conjI)
          apply (rule refl)
         apply simp
        apply simp
       apply (simp only: param_group.select_convs total)
      apply (simp only: param_group.select_convs s1)
     apply (simp only: param_group.select_convs s2)
    apply (simp only: param_group.select_convs)
    using disj apply blast
    done
qed

theorem configure_optimizers_partition_witness:
  "distinct (map snd [(''encoder.dense.bias'', 0::nat), (''encoder.LayerNorm.weight'', 1),
       (''encoder.dense.weight'', 2)])
   \<and> (\<exists>g1 g2. param_groups (configure_optimizers ex_model
         [(''encoder.dense.bias'', 0::nat), (''encoder.LayerNorm.weight'', 1),
          (''encoder.dense.weight'', 2)]) = [g1, g2]
       \<and> params g1 = [2] \<and> params g2 = [0, 1]
       \<and> weight_decay g1 = 0 \<and> weight_decay g2 = 0
       \<and> set (params g1) \<inter> set (params g2) = {})"
proof -
  let ?nps = "[(''encoder.dense.bias'', 0::nat), (''encoder.LayerNorm.weight'', 1),
       (''encoder.dense.weight'', 2)]"
  have d: "distinct (map snd ?nps)" by simp
  from configure_optimizers_partition [of ex_model ?nps]
  obtain g1 g2 where g: "param_groups (configure_optimizers ex_model ?nps) = [g1, g2]"
    and wd: "weight_decay g1 = 0" "weight_decay g2 = 0"
    and dj: "distinct (map snd ?nps) \<longrightarrow> set (params g1) \<inter> set (params g2) = {}"
    by blast
  from dj d have "set (params g1) \<inter> set (params g2) = {}" by blast
  moreover from g have "params g1 = [2] \<and> params g2 = [0, 1]"
    by (auto simp add: configure_optimizers_def optimizer_grouped_parameters_def no_decay_def)
  ultimately show ?thesis using d g wd by blast
qed

subsection \<open>The checkpoint hook\<close>

text \<open>
  C9. On a checkpoint event the hook makes three exports, in this order: the encoder
  to \<open><save_dir>/<name>/<version>/checkpoints/model/\<close>, then the tokenizer and the
  tokenizer's vocabulary to \<open><save_dir>/<name>/<version>/checkpoints/tokenizer/\<close>; the
  paths are functions of the logger's save directory, name and version alone.
\<close>

theorem on_save_checkpoint_exports:
  "on_save_checkpoint self logger =
     [Encoder_save_pretrained (encoder self)
        (spec_artifact_dir (save_dir logger) (logger_model.name logger) (version logger) ''model''),
      Tokenizer_save_pretrained (tokenizer self)
        (spec_artifact_dir (save_dir logger) (logger_model.name logger) (version logger) ''tokenizer''),
      Tokenizer_save_vocabulary (tokenizer self)
        (spec_artifact_dir (save_dir logger) (logger_model.name logger) (version logger) ''tokenizer'')]"
  by (simp add: on_save_checkpoint_def spec_artifact_dir_def)

lemma on_save_checkpoint_driver:
  "on_save_checkpoint ex_model ex_logger =
     [Encoder_save_pretrained ex_encoder ''./lightning_logs//full_run/all/checkpoints/model/'',
      Tokenizer_save_pretrained ex_tokenizer ''./lightning_logs//full_run/all/checkpoints/tokenizer/'',
      Tokenizer_save_vocabulary ex_tokenizer ''./lightning_logs//full_run/all/checkpoints/tokenizer/'']"
  by (simp add: on_save_checkpoint_def ex_logger_def ex_model_def)

end
